theory Spec2Isabelle
  imports Main "HOL-Library.Word"
begin

section \<open>Field elements\<close>

text \<open>
  Modelled from the spec: the field element type \<open>fp.Element\<close> and the helpers of
  \<open>pkg/utils\<close> (\<open>FeltZero\<close>, \<open>FeltOne\<close>, \<open>FeltMax128\<close>, \<open>FeltLt\<close>, \<open>FeltLe\<close>) are
  not among the sources. The spec says that a field element is a value of the prime
  field, already reduced modulo the prime, and that \<open>FeltLt\<close> and \<open>FeltLe\<close> compare the
  canonical (reduced) representatives. A field element is therefore the natural number
  below the prime that canonically represents it. \<open>FeltMax128\<close> is \<open>1 << 128\<close>, as the
  comment in \<open>createIsNNHinter\<close> says.
\<close>

definition PRIME :: nat where
  "PRIME = 2 ^ 251 + 17 * 2 ^ 192 + 1"

lemma PRIME_pos: "0 < PRIME"
  by (simp add: PRIME_def)

typedef felt = "{n :: nat. n < PRIME}"
  morphisms felt_val mk_felt
  using PRIME_pos by auto

setup_lifting type_definition_felt

lift_definition felt_of_nat :: "nat \<Rightarrow> felt" is "\<lambda>n. n mod PRIME"
  using PRIME_pos by simp

lift_definition felt_Sub :: "felt \<Rightarrow> felt \<Rightarrow> felt" is "\<lambda>x y. (x + PRIME - y) mod PRIME"
  using PRIME_pos by simp

lift_definition FeltLt :: "felt \<Rightarrow> felt \<Rightarrow> bool" is "\<lambda>x y. x < y" .

lift_definition FeltLe :: "felt \<Rightarrow> felt \<Rightarrow> bool" is "\<lambda>x y. x \<le> y" .

definition FeltZero :: felt where
  "FeltZero = felt_of_nat 0"

definition FeltOne :: felt where
  "FeltOne = felt_of_nat 1"

definition FeltMax128 :: felt where
  "FeltMax128 = felt_of_nat (2 ^ 128)"

section \<open>Errors\<close>

text \<open>
  The Go code returns \<open>fmt.Errorf\<close> strings; the constructors carry the names the
  specification gives to the error kinds. \<open>NilMapPanic\<close> is Go's run-time panic on an
  assignment to an entry of a nil map; \<open>OtherError\<close> is any error of a collaborator
  that is not among the sources (operand resolution, memory writes, parsing).
\<close>

datatype error =
    MissingIdentifier          \<comment> \<open>missing identifier ...\<close>
  | NoReferences               \<comment> \<open>identifier ... should have at least one reference\<close>
  | NoApplicableReference      \<comment> \<open>identifier ... should have a reference with pc smaller or equal than ...\<close>
  | NoDictionaryAtAddress      \<comment> \<open>no dictionary at address ...\<close>
  | NoValueForKey              \<comment> \<open>no value for key ...\<close>
  | AlreadyInitialized         \<comment> \<open>squashed dictionary manager already initialized\<close>
  | NoKeysLeft                 \<comment> \<open>no keys left\<close>
  | NoIndicesForKey            \<comment> \<open>no indices for key ...\<close>
  | ExpectedFieldElement       \<comment> \<open>\<open>FieldElement()\<close> of a memory value that is an address\<close>
  | NilMapPanic
  | OtherError string

text \<open>
  Go's \<open>x, err := f(); if err != nil { return err }\<close>: the rest of the function runs on
  the value of a call that succeeded, and the error of a failed call is returned as it is.
\<close>

definition bind_err :: "error + 'a \<Rightarrow> ('a \<Rightarrow> error + 'b) \<Rightarrow> error + 'b" where
  "bind_err r f = (case r of Inl e \<Rightarrow> Inl e | Inr x \<Rightarrow> f x)"

section \<open>Memory values, addresses and the virtual machine\<close>

type_synonym u64 = "64 word"

text \<open>
  Modelled from the spec: the types \<open>mem.MemoryAddress\<close> and \<open>mem.MemoryValue\<close> of
  \<open>pkg/vm/memory\<close> are not among the sources. The spec addresses memory by pairs of a
  segment index and an offset, with negative indices for temporary segments, and has
  hints read their operands as field elements. The code uses the fields
  \<open>SegmentIndex\<close>, a key of a \<open>map[int]Dictionary\<close> and so a Go \<open>int\<close> (64 bits, two's
  complement), and \<open>Offset\<close>, an unsigned 64-bit integer. Both are 64-bit words, so that
  negation and addition wrap as in Go. A memory value is a field element or an address,
  and \<open>FieldElement()\<close> fails on an address.
\<close>

record MemoryAddress =
  SegmentIndex :: "64 word"
  Offset :: u64

datatype MemoryValue =
    MemoryValueFromFieldElement felt
  | MemoryValueFromMemoryAddress MemoryAddress

definition FieldElement :: "MemoryValue \<Rightarrow> error + felt" where
  "FieldElement v =
     (case v of
        MemoryValueFromFieldElement x \<Rightarrow> Inr x
      | MemoryValueFromMemoryAddress _ \<Rightarrow> Inl ExpectedFieldElement)"

text \<open>
  The memory of the virtual machine (\<open>pkg/vm/memory\<close>) is not among the sources. The
  code under study only calls four of its methods, which are taken as parameters: a
  record of operations over an arbitrary memory state \<open>'mem\<close>.
\<close>

record 'mem MemoryOps =
  AllocateEmptySegment :: "'mem \<Rightarrow> MemoryAddress \<times> 'mem"
  AllocateEmptyTemporarySegment :: "'mem \<Rightarrow> MemoryAddress \<times> 'mem"
  AddRelocationRule :: "'mem \<Rightarrow> 64 word \<Rightarrow> MemoryAddress \<Rightarrow> 'mem"
  WriteToAddress :: "'mem \<Rightarrow> MemoryAddress \<Rightarrow> MemoryValue \<Rightarrow> error + 'mem"

text \<open>
  Of \<open>VM.VirtualMachine\<close> the code reads \<open>vm.Context.AddressAp()\<close> and uses
  \<open>vm.Memory\<close>.
\<close>

record 'mem VirtualMachine =
  AddressAp :: MemoryAddress
  Memory :: "'mem"

text \<open>A \<open>hinter.ResOperander\<close> is used through its method \<open>Resolve(vm)\<close> only.\<close>

type_synonym 'mem ResOperander = "'mem VirtualMachine \<Rightarrow> error + MemoryValue"

type_synonym 'mem HintOp = "'mem VirtualMachine \<Rightarrow> error + 'mem VirtualMachine"

definition write_ap :: "'mem MemoryOps \<Rightarrow> 'mem VirtualMachine \<Rightarrow> MemoryValue \<Rightarrow> error + 'mem VirtualMachine" where
  \<comment> \<open>\<open>return vm.Memory.WriteToAddress(&apAddr, &v)\<close> with \<open>apAddr := vm.Context.AddressAp()\<close>\<close>
  "write_ap M vm v =
     bind_err (WriteToAddress M (Memory vm) (AddressAp vm) v) (\<lambda>m. Inr (vm\<lparr>Memory := m\<rparr>))"

section \<open>Hints of zerohint.go\<close>

definition IsLeFelt_Op :: "'mem MemoryOps \<Rightarrow> 'mem ResOperander \<Rightarrow> 'mem ResOperander \<Rightarrow> 'mem HintOp" where
  "IsLeFelt_Op M argA argB vm =
     bind_err (argA vm) (\<lambda>a.
     bind_err (FieldElement a) (\<lambda>aFelt.
     bind_err (argB vm) (\<lambda>b.
     bind_err (FieldElement b) (\<lambda>bFelt.
       write_ap M vm
         (if FeltLe aFelt bFelt then MemoryValueFromFieldElement FeltZero
          else MemoryValueFromFieldElement FeltOne)))))"

definition createIsLeFeltHinter ::
  "'mem MemoryOps \<Rightarrow> (string \<Rightarrow> error + 'mem ResOperander) \<Rightarrow> error + 'mem HintOp" where
  "createIsLeFeltHinter M GetResOperander =
     bind_err (GetResOperander ''a'') (\<lambda>argA.
     bind_err (GetResOperander ''b'') (\<lambda>argB.
       Inr (IsLeFelt_Op M argA argB)))"

definition IsNN_Op :: "'mem MemoryOps \<Rightarrow> 'mem ResOperander \<Rightarrow> 'mem HintOp" where
  "IsNN_Op M argA vm =
     bind_err (argA vm) (\<lambda>a.
     bind_err (FieldElement a) (\<lambda>aFelt.
       write_ap M vm
         (if FeltLt aFelt FeltMax128 then MemoryValueFromFieldElement FeltZero
          else MemoryValueFromFieldElement FeltOne)))"

definition createIsNNHinter ::
  "'mem MemoryOps \<Rightarrow> (string \<Rightarrow> error + 'mem ResOperander) \<Rightarrow> error + 'mem HintOp" where
  "createIsNNHinter M GetResOperander =
     bind_err (GetResOperander ''a'') (\<lambda>argA. Inr (IsNN_Op M argA))"

text \<open>
  \<open>IsNNOutOfRange\<close> computes \<open>lhs = (0 - a) - 1\<close> in the field and then tests \<open>aFelt\<close>,
  not \<open>lhs\<close>, against \<open>FeltMax128\<close>.
\<close>

definition IsNNOutOfRange_Op :: "'mem MemoryOps \<Rightarrow> 'mem ResOperander \<Rightarrow> 'mem HintOp" where
  "IsNNOutOfRange_Op M argA vm =
     bind_err (argA vm) (\<lambda>a.
     bind_err (FieldElement a) (\<lambda>aFelt.
       (let lhs = felt_Sub FeltZero aFelt in
        (let lhs = felt_Sub lhs FeltOne in
         write_ap M vm
           (if FeltLt aFelt FeltMax128 then MemoryValueFromFieldElement FeltZero
            else MemoryValueFromFieldElement FeltOne)))))"

definition createIsNNOutOfRangeHinter ::
  "'mem MemoryOps \<Rightarrow> (string \<Rightarrow> error + 'mem ResOperander) \<Rightarrow> error + 'mem HintOp" where
  "createIsNNOutOfRangeHinter M GetResOperander =
     bind_err (GetResOperander ''a'') (\<lambda>argA. Inr (IsNNOutOfRange_Op M argA))"

section \<open>Reference resolution (getParameters of zerohint.go)\<close>

text \<open>
  A \<open>zero.Reference\<close> has the fields \<open>ApTrackingData\<close>, \<open>Pc\<close> (a \<open>uint64\<close>) and
  \<open>Value\<close>. The type of the ap-tracking data is declared in the parser package and left
  open here.
\<close>

record 'ap Reference =
  ApTrackingData :: 'ap
  Pc :: u64
  Value :: string

text \<open>
  The loop \<open>for i := len(references) - 1; i >= 0; i--\<close>: the second argument is
  \<open>i + 1\<close>, so that \<open>0\<close> is the exit of the loop with \<open>ok = false\<close>.
\<close>

fun scan_references :: "'ap Reference list \<Rightarrow> nat \<Rightarrow> u64 \<Rightarrow> 'ap Reference option" where
  "scan_references references 0 hintPC = None"
| "scan_references references (Suc i) hintPC =
     (if Pc (references ! i) \<le> hintPC then Some (references ! i)
      else scan_references references i hintPC)"

text \<open>Lines 326 to 343 of the loop body: the reference chosen for one identifier.\<close>

definition select_reference :: "'ap Reference list \<Rightarrow> u64 \<Rightarrow> error + 'ap Reference" where
  "select_reference references hintPC =
     (if length references = 0 then Inl NoReferences
      else (case scan_references references (length references) hintPC of
              None \<Rightarrow> Inl NoApplicableReference
            | Some reference \<Rightarrow> Inr reference))"

text \<open>
  The collaborators of \<open>getParameters\<close> that are not among the sources, as parameters:
  the parser of a reference's value, the ap-tracking adjustment of the parsed
  parameter, and the resolver with its method \<open>AddReference\<close>.
\<close>

record ('p, 'ap, 'r) ResolverOps =
  NewReferenceResolver :: 'r
  ParseIdentifier :: "string \<Rightarrow> error + 'p"
  ApplyApTracking :: "'p \<Rightarrow> 'ap \<Rightarrow> 'ap \<Rightarrow> 'p"
  AddReference :: "'r \<Rightarrow> string \<Rightarrow> 'p \<Rightarrow> error + 'r"

text \<open>
  The loop of \<open>getParameters\<close> ranges over the map \<open>hint.FlowTrackingData.ReferenceIds\<close>;
  Go leaves the order of the iteration open, so the names come as a list in the order
  in which the run visits them. \<open>Identifiers\<close> maps a name to the \<open>References\<close> of its
  identifier. On an error the Go function returns the resolver built so far together
  with the error; its only caller drops the resolver, and so does the model.
\<close>

fun getParameters_loop ::
  "('p, 'ap, 'r) ResolverOps \<Rightarrow> (string \<rightharpoonup> 'ap Reference list) \<Rightarrow> 'ap \<Rightarrow> u64 \<Rightarrow>
   string list \<Rightarrow> 'r \<Rightarrow> error + 'r" where
  "getParameters_loop R Identifiers hintApTracking hintPC [] resolver = Inr resolver"
| "getParameters_loop R Identifiers hintApTracking hintPC (referenceName # names) resolver =
     (case Identifiers referenceName of
        None \<Rightarrow> Inl MissingIdentifier
      | Some references \<Rightarrow>
          bind_err (select_reference references hintPC) (\<lambda>reference.
          bind_err (ParseIdentifier R (Value reference)) (\<lambda>param.
          bind_err (AddReference R resolver referenceName
                      (ApplyApTracking R param hintApTracking (ApTrackingData reference)))
            (getParameters_loop R Identifiers hintApTracking hintPC names))))"

definition getParameters ::
  "('p, 'ap, 'r) ResolverOps \<Rightarrow> (string \<rightharpoonup> 'ap Reference list) \<Rightarrow> 'ap \<Rightarrow> string list \<Rightarrow>
   u64 \<Rightarrow> error + 'r" where
  "getParameters R Identifiers hintApTracking ReferenceIds hintPC =
     getParameters_loop R Identifiers hintApTracking hintPC ReferenceIds (NewReferenceResolver R)"

section \<open>Dictionaries (dict.go)\<close>

text \<open>
  A \<open>Dictionary\<close> has the fields \<open>data\<close>, \<open>idx\<close> and \<open>end\<close> (here \<open>end'\<close>). The
  values of \<open>data\<close> are pointers to memory values in Go; the model stores the value. The
  only place that creates a dictionary of the manager is \<open>NewDictionary\<close>, which
  allocates \<open>data\<close>, so \<open>data\<close> is never a nil map.
\<close>

record Dictionary =
  data :: "felt \<rightharpoonup> MemoryValue"
  idx :: u64
  end' :: MemoryAddress

definition Dictionary_At :: "Dictionary \<Rightarrow> felt \<Rightarrow> error + MemoryValue" where
  "Dictionary_At d key =
     (case data d key of Some v \<Rightarrow> Inr v | None \<Rightarrow> Inl NoValueForKey)"

definition Dictionary_Set :: "Dictionary \<Rightarrow> felt \<Rightarrow> MemoryValue \<Rightarrow> Dictionary" where
  "Dictionary_Set d key v = d\<lparr>data := (data d)(key \<mapsto> v)\<rparr>"

definition SetEnd :: "Dictionary \<Rightarrow> MemoryAddress \<Rightarrow> Dictionary" where
  "SetEnd d e = d\<lparr>end' := e\<rparr>"

definition InitNumber :: "Dictionary \<Rightarrow> u64" where
  "InitNumber d = idx d"

text \<open>
  The map \<open>dictionaries\<close> of the manager is nil until \<open>InitializeDictionaryManager\<close>
  makes it: \<open>None\<close> is the nil map. Reading a nil map finds no entry; assigning to an
  entry of a nil map panics.
\<close>

record DictionaryManager =
  dictionaries :: "(64 word \<rightharpoonup> Dictionary) option"
  useTemporarySegments :: bool

definition lookup_dictionary :: "DictionaryManager \<Rightarrow> 64 word \<Rightarrow> Dictionary option" where
  \<comment> \<open>\<open>dict, ok := dm.dictionaries[segmentIndex]\<close>\<close>
  "lookup_dictionary dm i = (case dictionaries dm of None \<Rightarrow> None | Some ds \<Rightarrow> ds i)"

definition NewDictionary ::
  "'mem MemoryOps \<Rightarrow> DictionaryManager \<Rightarrow> 'mem VirtualMachine \<Rightarrow>
   error + (MemoryAddress \<times> DictionaryManager \<times> 'mem VirtualMachine)" where
  "NewDictionary M dm vm =
     (let (newDictAddr, m) =
            (if useTemporarySegments dm then AllocateEmptyTemporarySegment M (Memory vm)
             else AllocateEmptySegment M (Memory vm))
      in (case dictionaries dm of
            None \<Rightarrow> Inl NilMapPanic
          | Some ds \<Rightarrow>
              Inr (newDictAddr,
                   dm\<lparr>dictionaries := Some (ds(SegmentIndex newDictAddr \<mapsto>
                          \<lparr>data = Map.empty, idx = of_nat (card (dom ds)),
                           end' = \<lparr>SegmentIndex = 0, Offset = 0\<rparr>\<rparr>))\<rparr>,
                   vm\<lparr>Memory := m\<rparr>)))"

definition GetDictionary :: "DictionaryManager \<Rightarrow> MemoryAddress \<Rightarrow> error + Dictionary" where
  "GetDictionary dm dictAddr =
     (case lookup_dictionary dm (SegmentIndex dictAddr) of
        Some dict \<Rightarrow> Inr dict
      | None \<Rightarrow> Inl NoDictionaryAtAddress)"

definition DictionaryManager_At ::
  "DictionaryManager \<Rightarrow> MemoryAddress \<Rightarrow> felt \<Rightarrow> error + MemoryValue" where
  "DictionaryManager_At dm dictAddr key =
     (case lookup_dictionary dm (SegmentIndex dictAddr) of
        Some dict \<Rightarrow> Dictionary_At dict key
      | None \<Rightarrow> Inl NoDictionaryAtAddress)"

definition DictionaryManager_Set ::
  "DictionaryManager \<Rightarrow> MemoryAddress \<Rightarrow> felt \<Rightarrow> MemoryValue \<Rightarrow> error + DictionaryManager" where
  "DictionaryManager_Set dm dictAddr key v =
     (case dictionaries dm of
        None \<Rightarrow> Inl NoDictionaryAtAddress
      | Some ds \<Rightarrow>
          (case ds (SegmentIndex dictAddr) of
             Some dict \<Rightarrow>
               Inr (dm\<lparr>dictionaries :=
                      Some (ds(SegmentIndex dictAddr \<mapsto> SetEnd (Dictionary_Set dict key v) dictAddr))\<rparr>)
           | None \<Rightarrow> Inl NoDictionaryAtAddress))"

text \<open>
  \<open>RelocateAllDictionaries\<close> ranges over the map \<open>dm.dictionaries\<close>. Go visits every
  key of the map once, in an order that it leaves open and that changes from one run to
  the next; the order of a run is an argument of the model, and
  \<open>map_iteration_order\<close> says which lists are orders of a map.
\<close>

definition map_iteration_order :: "('k \<rightharpoonup> 'v) \<Rightarrow> 'k list \<Rightarrow> bool" where
  "map_iteration_order m ks \<longleftrightarrow> distinct ks \<and> set ks = dom m"

fun relocate_loop ::
  "'mem MemoryOps \<Rightarrow> (64 word \<rightharpoonup> Dictionary) \<Rightarrow> 64 word list \<Rightarrow> MemoryAddress \<Rightarrow> 'mem \<Rightarrow> 'mem" where
  "relocate_loop M ds [] segmentAddr m = m"
| "relocate_loop M ds (key # keys) segmentAddr m =
     (case ds key of
        None \<Rightarrow> relocate_loop M ds keys segmentAddr m
      | Some dict \<Rightarrow>
          relocate_loop M ds keys
            (segmentAddr\<lparr>Offset := Offset segmentAddr + (Offset (end' dict) + 1)\<rparr>)
            (AddRelocationRule M m (- key) segmentAddr))"

definition RelocateAllDictionaries ::
  "'mem MemoryOps \<Rightarrow> DictionaryManager \<Rightarrow> 64 word list \<Rightarrow> 'mem VirtualMachine \<Rightarrow> 'mem VirtualMachine" where
  "RelocateAllDictionaries M dm order vm =
     (let (segmentAddr, m) = AllocateEmptySegment M (Memory vm)
      in (case dictionaries dm of
            None \<Rightarrow> vm\<lparr>Memory := m\<rparr>
          | Some ds \<Rightarrow> vm\<lparr>Memory := relocate_loop M ds order segmentAddr m\<rparr>))"

subsection \<open>Squashed dictionaries\<close>

text \<open>
  \<open>InitializeSquashedDictionaryManager\<close> tests both fields against nil, so both are
  optional: \<open>None\<close> is the nil map and the nil slice. The index lists inside the map are
  plain lists: the code only takes their length, appends and slices.
\<close>

record SquashedDictionaryManager =
  KeyToIndices :: "(felt \<rightharpoonup> u64 list) option"
  Keys :: "felt list option"

definition keys_slice :: "SquashedDictionaryManager \<Rightarrow> felt list" where
  \<comment> \<open>the elements of \<open>sdm.Keys\<close>; a nil slice has none\<close>
  "keys_slice sdm = (case Keys sdm of None \<Rightarrow> [] | Some ks \<Rightarrow> ks)"

definition indices_at :: "SquashedDictionaryManager \<Rightarrow> felt \<Rightarrow> u64 list" where
  \<comment> \<open>\<open>sdm.KeyToIndices[key]\<close>: the nil slice when the map is nil or has no such key\<close>
  "indices_at sdm key =
     (case KeyToIndices sdm of
        None \<Rightarrow> []
      | Some m \<Rightarrow> (case m key of None \<Rightarrow> [] | Some indices \<Rightarrow> indices))"

text \<open>Of \<open>HintRunnerContext\<close> the code uses the two managers and \<open>ExcludedArc\<close>.\<close>

record HintRunnerContext =
  ctxDictionaryManager :: DictionaryManager
  ctxSquashedDictionaryManager :: SquashedDictionaryManager
  ExcludedArc :: int

definition InitializeDictionaryManager :: "HintRunnerContext \<Rightarrow> bool \<Rightarrow> HintRunnerContext" where
  "InitializeDictionaryManager ctx useTemp =
     ctx\<lparr>ctxDictionaryManager :=
       \<lparr>dictionaries =
          (case dictionaries (ctxDictionaryManager ctx) of
             None \<Rightarrow> Some Map.empty
           | Some ds \<Rightarrow> Some ds),
        useTemporarySegments = useTemp\<rparr>\<rparr>"

definition InitializeSquashedDictionaryManager :: "HintRunnerContext \<Rightarrow> error + HintRunnerContext" where
  "InitializeSquashedDictionaryManager ctx =
     (if KeyToIndices (ctxSquashedDictionaryManager ctx) \<noteq> None \<or>
         Keys (ctxSquashedDictionaryManager ctx) \<noteq> None
      then Inl AlreadyInitialized
      else Inr (ctx\<lparr>ctxSquashedDictionaryManager :=
                  \<lparr>KeyToIndices = Some Map.empty, Keys = Some []\<rparr>\<rparr>))"

definition Insert :: "SquashedDictionaryManager \<Rightarrow> felt \<Rightarrow> u64 \<Rightarrow> error + SquashedDictionaryManager" where
  "Insert sdm key index =
     (case KeyToIndices sdm of
        None \<Rightarrow> Inl NilMapPanic
      | Some m \<Rightarrow>
          (case m key of
             Some indices \<Rightarrow> Inr (sdm\<lparr>KeyToIndices := Some (m(key \<mapsto> indices @ [index]))\<rparr>)
           | None \<Rightarrow> Inr (sdm\<lparr>KeyToIndices := Some (m(key \<mapsto> [index]))\<rparr>)))"

definition LastKey :: "SquashedDictionaryManager \<Rightarrow> error + felt" where
  "LastKey sdm =
     (if length (keys_slice sdm) = 0 then Inl NoKeysLeft
      else Inr (keys_slice sdm ! (length (keys_slice sdm) - 1)))"

definition PopKey :: "SquashedDictionaryManager \<Rightarrow> error + (felt \<times> SquashedDictionaryManager)" where
  "PopKey sdm =
     bind_err (LastKey sdm) (\<lambda>key.
       Inr (key, sdm\<lparr>Keys := Some (take (length (keys_slice sdm) - 1) (keys_slice sdm))\<rparr>))"

definition LastIndices :: "SquashedDictionaryManager \<Rightarrow> error + u64 list" where
  "LastIndices sdm = bind_err (LastKey sdm) (\<lambda>key. Inr (indices_at sdm key))"

definition LastIndex :: "SquashedDictionaryManager \<Rightarrow> error + u64" where
  "LastIndex sdm =
     bind_err (LastKey sdm) (\<lambda>key.
       (let indices = indices_at sdm key
        in if length indices = 0 then Inl NoIndicesForKey
           else Inr (indices ! (length indices - 1))))"

text \<open>
  In \<open>PopIndex\<close> the assignment to the map is reached only with a non-empty index list,
  which a nil map does not have; the branch for the nil map is there for totality.
\<close>

definition PopIndex :: "SquashedDictionaryManager \<Rightarrow> error + (u64 \<times> SquashedDictionaryManager)" where
  "PopIndex sdm =
     bind_err (LastKey sdm) (\<lambda>key.
       (let indices = indices_at sdm key
        in if length indices = 0 then Inl NoIndicesForKey
           else (case KeyToIndices sdm of
                   None \<Rightarrow> Inl NilMapPanic
                 | Some m \<Rightarrow>
                     Inr (indices ! (length indices - 1),
                          sdm\<lparr>KeyToIndices :=
                                Some (m(key \<mapsto> take (length indices - 1) indices))\<rparr>))))"

section \<open>Sequences of calls\<close>

text \<open>
  Claims about "any sequence of calls" need the callers' side: a sequence of \<open>Set\<close>
  calls on the dictionary manager, which stops at the first error, and a sequence of
  calls on the squashed dictionary manager of a run context, where a call that fails
  leaves the context as it was (each of them returns its error, and \<open>Insert\<close> panics,
  before anything is assigned).
\<close>

fun set_all ::
  "DictionaryManager \<Rightarrow> (MemoryAddress \<times> felt \<times> MemoryValue) list \<Rightarrow> error + DictionaryManager" where
  "set_all dm [] = Inr dm"
| "set_all dm ((dictAddr, key, v) # calls) =
     bind_err (DictionaryManager_Set dm dictAddr key v) (\<lambda>dm'. set_all dm' calls)"

datatype sdm_call = CallInitialize | CallInsert felt u64 | CallPopKey | CallPopIndex

fun apply_call :: "HintRunnerContext \<Rightarrow> sdm_call \<Rightarrow> HintRunnerContext" where
  "apply_call ctx CallInitialize =
     (case InitializeSquashedDictionaryManager ctx of Inl e \<Rightarrow> ctx | Inr ctx' \<Rightarrow> ctx')"
| "apply_call ctx (CallInsert key index) =
     (case Insert (ctxSquashedDictionaryManager ctx) key index of
        Inl e \<Rightarrow> ctx
      | Inr sdm \<Rightarrow> ctx\<lparr>ctxSquashedDictionaryManager := sdm\<rparr>)"
| "apply_call ctx CallPopKey =
     (case PopKey (ctxSquashedDictionaryManager ctx) of
        Inl e \<Rightarrow> ctx
      | Inr (key, sdm) \<Rightarrow> ctx\<lparr>ctxSquashedDictionaryManager := sdm\<rparr>)"
| "apply_call ctx CallPopIndex =
     (case PopIndex (ctxSquashedDictionaryManager ctx) of
        Inl e \<Rightarrow> ctx
      | Inr (index, sdm) \<Rightarrow> ctx\<lparr>ctxSquashedDictionaryManager := sdm\<rparr>)"

definition sdm_calls :: "HintRunnerContext \<Rightarrow> sdm_call list \<Rightarrow> HintRunnerContext" where
  "sdm_calls ctx calls = foldl apply_call ctx calls"

section \<open>A memory that records its calls\<close>

text \<open>
  Modelled from the spec: an instance of the memory operations (the memory model
  interface of the spec; \<open>pkg/vm/memory\<close> is not among the sources), to run the
  functions on concrete inputs. It counts the segments it has allocated and records
  every relocation rule and every write, in the order of the calls; real segments are
  numbered from 0, temporary ones from -1 downwards, and a new segment starts at
  offset 0. The general theorems do not depend on it.
\<close>

datatype mem_event = RelocationRule "64 word" MemoryAddress | Written MemoryAddress MemoryValue

record TraceMemory =
  segments :: nat
  temporarySegments :: nat
  events :: "mem_event list"

definition trace_memory :: "TraceMemory MemoryOps" where
  "trace_memory =
     \<lparr>AllocateEmptySegment =
        (\<lambda>m. (\<lparr>SegmentIndex = of_nat (segments m), Offset = 0\<rparr>,
              m\<lparr>segments := Suc (segments m)\<rparr>)),
      AllocateEmptyTemporarySegment =
        (\<lambda>m. (\<lparr>SegmentIndex = - of_nat (Suc (temporarySegments m)), Offset = 0\<rparr>,
              m\<lparr>temporarySegments := Suc (temporarySegments m)\<rparr>)),
      AddRelocationRule = (\<lambda>m key addr. m\<lparr>events := events m @ [RelocationRule key addr]\<rparr>),
      WriteToAddress = (\<lambda>m addr v. Inr (m\<lparr>events := events m @ [Written addr v]\<rparr>))\<rparr>"

definition empty_memory :: TraceMemory where
  "empty_memory = \<lparr>segments = 0, temporarySegments = 0, events = []\<rparr>"

section \<open>Basic facts\<close>

lemma bind_err_simps [simp]:
  "bind_err (Inl e) f = Inl e"
  "bind_err (Inr x) f = f x"
  by (simp_all add: bind_err_def)

lemma felt_val_FeltMax128: "felt_val FeltMax128 = 2 ^ 128"
  by (simp add: FeltMax128_def felt_of_nat.rep_eq PRIME_def)

section \<open>The comparison hints\<close>

text \<open>
  Claim C4. When the operands \<open>a\<close> and \<open>b\<close> resolve to field elements, \<open>IsLeFelt\<close> is
  one call of \<open>WriteToAddress\<close> on the memory it was given, at the address of the
  allocation pointer, and the run is that call's result: the value written is 0 if the
  canonical representative of \<open>a\<close> is at most that of \<open>b\<close>, and 1 otherwise.
\<close>

theorem IsLeFelt_writes_comparison:
  assumes "argA vm = Inr (MemoryValueFromFieldElement a)"
    and "argB vm = Inr (MemoryValueFromFieldElement b)"
  shows "IsLeFelt_Op M argA argB vm =
           (case WriteToAddress M (Memory vm) (AddressAp vm)
                   (MemoryValueFromFieldElement
                      (felt_of_nat (if felt_val a \<le> felt_val b then 0 else 1))) of
              Inl e \<Rightarrow> Inl e
            | Inr m \<Rightarrow> Inr (vm\<lparr>Memory := m\<rparr>))"
  using assms
  by (simp add: IsLeFelt_Op_def FieldElement_def write_ap_def bind_err_def FeltLe.rep_eq
      FeltZero_def FeltOne_def)

text \<open>
  The three runs of the specification, on the recording memory: \<open>IsLeFelt(3, 5)\<close>
  writes 0, \<open>IsLeFelt(5, 3)\<close> writes 1 and \<open>IsLeFelt(4, 4)\<close> writes 0, each as the only
  event of the run.
\<close>

theorem IsLeFelt_writes_comparison_witness:
  "IsLeFelt_Op trace_memory
      (\<lambda>vm. Inr (MemoryValueFromFieldElement (felt_of_nat 3)))
      (\<lambda>vm. Inr (MemoryValueFromFieldElement (felt_of_nat 5)))
      \<lparr>AddressAp = \<lparr>SegmentIndex = 1, Offset = 7\<rparr>, Memory = empty_memory\<rparr>
   = Inr \<lparr>AddressAp = \<lparr>SegmentIndex = 1, Offset = 7\<rparr>,
          Memory = \<lparr>segments = 0, temporarySegments = 0,
                    events = [Written \<lparr>SegmentIndex = 1, Offset = 7\<rparr>
                                (MemoryValueFromFieldElement (felt_of_nat 0))]\<rparr>\<rparr>
   \<and>
   IsLeFelt_Op trace_memory
      (\<lambda>vm. Inr (MemoryValueFromFieldElement (felt_of_nat 5)))
      (\<lambda>vm. Inr (MemoryValueFromFieldElement (felt_of_nat 3)))
      \<lparr>AddressAp = \<lparr>SegmentIndex = 1, Offset = 7\<rparr>, Memory = empty_memory\<rparr>
   = Inr \<lparr>AddressAp = \<lparr>SegmentIndex = 1, Offset = 7\<rparr>,
          Memory = \<lparr>segments = 0, temporarySegments = 0,
                    events = [Written \<lparr>SegmentIndex = 1, Offset = 7\<rparr>
                                (MemoryValueFromFieldElement (felt_of_nat 1))]\<rparr>\<rparr>
   \<and>
   IsLeFelt_Op trace_memory
      (\<lambda>vm. Inr (MemoryValueFromFieldElement (felt_of_nat 4)))
      (\<lambda>vm. Inr (MemoryValueFromFieldElement (felt_of_nat 4)))
      \<lparr>AddressAp = \<lparr>SegmentIndex = 1, Offset = 7\<rparr>, Memory = empty_memory\<rparr>
   = Inr \<lparr>AddressAp = \<lparr>SegmentIndex = 1, Offset = 7\<rparr>,
          Memory = \<lparr>segments = 0, temporarySegments = 0,
                    events = [Written \<lparr>SegmentIndex = 1, Offset = 7\<rparr>
                                (MemoryValueFromFieldElement (felt_of_nat 0))]\<rparr>\<rparr>"
  using
    IsLeFelt_writes_comparison [of
      "\<lambda>vm. Inr (MemoryValueFromFieldElement (felt_of_nat 3))"
      "\<lparr>AddressAp = \<lparr>SegmentIndex = 1, Offset = 7\<rparr>, Memory = empty_memory\<rparr>"
      "felt_of_nat 3"
      "\<lambda>vm. Inr (MemoryValueFromFieldElement (felt_of_nat 5))"
      "felt_of_nat 5" trace_memory]
    IsLeFelt_writes_comparison [of
      "\<lambda>vm. Inr (MemoryValueFromFieldElement (felt_of_nat 5))"
      "\<lparr>AddressAp = \<lparr>SegmentIndex = 1, Offset = 7\<rparr>, Memory = empty_memory\<rparr>"
      "felt_of_nat 5"
      "\<lambda>vm. Inr (MemoryValueFromFieldElement (felt_of_nat 3))"
      "felt_of_nat 3" trace_memory]
    IsLeFelt_writes_comparison [of
      "\<lambda>vm. Inr (MemoryValueFromFieldElement (felt_of_nat 4))"
      "\<lparr>AddressAp = \<lparr>SegmentIndex = 1, Offset = 7\<rparr>, Memory = empty_memory\<rparr>"
      "felt_of_nat 4"
      "\<lambda>vm. Inr (MemoryValueFromFieldElement (felt_of_nat 4))"
      "felt_of_nat 4" trace_memory]
  by (simp add: felt_of_nat.rep_eq PRIME_def trace_memory_def empty_memory_def)

text \<open>
  Claim C3. \<open>IsNNOutOfRange\<close> returns what \<open>IsNN\<close> returns on the same operand and
  machine, whatever the operand resolves to. When it resolves to a field element \<open>a\<close>,
  the run is one write at the address of the allocation pointer, of 0 if the canonical
  representative of \<open>a\<close> is below \<open>2^128\<close> and of 1 otherwise; the value \<open>lhs\<close>
  that the hint computes does not occur in the result.
\<close>

theorem IsNNOutOfRange_writes_as_IsNN:
  "IsNNOutOfRange_Op M argA vm = IsNN_Op M argA vm \<and>
   (argA vm = Inr (MemoryValueFromFieldElement a) \<longrightarrow>
      IsNNOutOfRange_Op M argA vm =
        (case WriteToAddress M (Memory vm) (AddressAp vm)
                (MemoryValueFromFieldElement
                   (felt_of_nat (if felt_val a < 2 ^ 128 then 0 else 1))) of
           Inl e \<Rightarrow> Inl e
         | Inr m \<Rightarrow> Inr (vm\<lparr>Memory := m\<rparr>)))"
  by (simp add: IsNNOutOfRange_Op_def IsNN_Op_def FieldElement_def write_ap_def bind_err_def
      FeltLt.rep_eq felt_val_FeltMax128 FeltZero_def FeltOne_def)

text \<open>
  At \<open>a = 0\<close> the hint writes 0, although \<open>(-a - 1) mod PRIME\<close> is \<open>PRIME - 1\<close>, which
  is not below \<open>2^128\<close>.
\<close>

theorem IsNNOutOfRange_writes_as_IsNN_witness:
  "IsNNOutOfRange_Op trace_memory
      (\<lambda>vm. Inr (MemoryValueFromFieldElement (felt_of_nat 0)))
      \<lparr>AddressAp = \<lparr>SegmentIndex = 1, Offset = 7\<rparr>, Memory = empty_memory\<rparr>
   = Inr \<lparr>AddressAp = \<lparr>SegmentIndex = 1, Offset = 7\<rparr>,
          Memory = \<lparr>segments = 0, temporarySegments = 0,
                    events = [Written \<lparr>SegmentIndex = 1, Offset = 7\<rparr>
                                (MemoryValueFromFieldElement (felt_of_nat 0))]\<rparr>\<rparr>
   \<and> \<not> felt_val (felt_Sub (felt_Sub FeltZero (felt_of_nat 0)) FeltOne) < 2 ^ 128"
  using IsNNOutOfRange_writes_as_IsNN [of trace_memory
      "\<lambda>vm. Inr (MemoryValueFromFieldElement (felt_of_nat 0))"
      "\<lparr>AddressAp = \<lparr>SegmentIndex = 1, Offset = 7\<rparr>, Memory = empty_memory\<rparr>"
      "felt_of_nat 0", THEN conjunct2]
  by (simp add: felt_of_nat.rep_eq felt_Sub.rep_eq FeltZero_def FeltOne_def PRIME_def
      trace_memory_def empty_memory_def)

section \<open>Reference resolution\<close>

lemma scan_references_None:
  "scan_references references n hintPC = None \<longleftrightarrow> (\<forall>j<n. \<not> Pc (references ! j) \<le> hintPC)"
  by (induction n) (auto simp: less_Suc_eq)

lemma scan_references_Some:
  "scan_references references n hintPC = Some r \<Longrightarrow>
     \<exists>i<n. r = references ! i \<and> Pc (references ! i) \<le> hintPC \<and>
            (\<forall>j. i < j \<and> j < n \<longrightarrow> \<not> Pc (references ! j) \<le> hintPC)"
proof (induction n)
  case 0
  then show ?case by simp
next
  case (Suc n)
  show ?case
  proof (cases "Pc (references ! n) \<le> hintPC")
    case True
    with Suc.prems have "r = references ! n" by simp
    with True show ?thesis by auto
  next
    case False
    with Suc.prems have "scan_references references n hintPC = Some r" by simp
    from Suc.IH [OF this] obtain i where i: "i < n" "r = references ! i"
      "Pc (references ! i) \<le> hintPC"
      "\<forall>j. i < j \<and> j < n \<longrightarrow> \<not> Pc (references ! j) \<le> hintPC" by blast
    have "\<forall>j. i < j \<and> j < Suc n \<longrightarrow> \<not> Pc (references ! j) \<le> hintPC"
      using i(4) False by (auto simp: less_Suc_eq)
    with i show ?thesis by (intro exI [of _ i]) simp
  qed
qed

lemma bind_err_assoc:
  "bind_err (bind_err r f) g = bind_err r (\<lambda>x. bind_err (f x) g)"
  by (cases r) simp_all

lemma getParameters_loop_append:
  "getParameters_loop R Identifiers hintApTracking hintPC (xs @ ys) resolver =
     bind_err (getParameters_loop R Identifiers hintApTracking hintPC xs resolver)
       (getParameters_loop R Identifiers hintApTracking hintPC ys)"
proof (induction xs arbitrary: resolver)
  case Nil
  then show ?case by simp
next
  case (Cons name xs)
  have IH: "getParameters_loop R Identifiers hintApTracking hintPC (xs @ ys) =
     (\<lambda>r. bind_err (getParameters_loop R Identifiers hintApTracking hintPC xs r)
            (getParameters_loop R Identifiers hintApTracking hintPC ys))"
    by (rule ext) (rule Cons.IH)
  show ?case
    by (cases "Identifiers name") (simp_all add: bind_err_assoc IH)
qed

lemma select_reference_none_applicable:
  "references \<noteq> [] \<Longrightarrow> \<forall>r \<in> set references. \<not> Pc r \<le> hintPC \<Longrightarrow>
     select_reference references hintPC = Inl NoApplicableReference"
proof -
  assume ne: "references \<noteq> []" and no: "\<forall>r \<in> set references. \<not> Pc r \<le> hintPC"
  from no have "scan_references references (length references) hintPC = None"
    by (simp add: scan_references_None)
  with ne show ?thesis
    by (simp add: select_reference_def)
qed

lemma select_reference_sorted_greatest:
  assumes "sorted (map Pc references)" and "\<exists>r \<in> set references. Pc r \<le> hintPC"
  shows "\<exists>reference \<in> set references.
           select_reference references hintPC = Inr reference \<and> Pc reference \<le> hintPC \<and>
           (\<forall>r \<in> set references. Pc r \<le> hintPC \<longrightarrow> Pc r \<le> Pc reference)"
proof -
  from assms(2) obtain k where k: "k < length references" "Pc (references ! k) \<le> hintPC"
    by (auto simp: in_set_conv_nth)
  then have ne: "references \<noteq> []" by auto
  from k have "scan_references references (length references) hintPC \<noteq> None"
    by (auto simp: scan_references_None)
  then obtain r where r: "scan_references references (length references) hintPC = Some r"
    by auto
  from scan_references_Some [OF r] obtain i where i: "i < length references"
    "r = references ! i" "Pc (references ! i) \<le> hintPC"
    "\<forall>j. i < j \<and> j < length references \<longrightarrow> \<not> Pc (references ! j) \<le> hintPC" by blast
  have sel: "select_reference references hintPC = Inr (references ! i)"
    using r i(2) ne by (simp add: select_reference_def)
  have great: "Pc r' \<le> Pc (references ! i)"
    if r': "r' \<in> set references" "Pc r' \<le> hintPC" for r'
  proof -
    from r' obtain j where j: "j < length references" "r' = references ! j"
      by (auto simp: in_set_conv_nth)
    with r'(2) i(4) have "j \<le> i" by (metis not_le_imp_less)
    with assms(1) i(1) j have "map Pc references ! j \<le> map Pc references ! i"
      by (intro sorted_nth_mono) simp_all
    with i(1) j show ?thesis by simp
  qed
  from i(1) have "references ! i \<in> set references" by simp
  with sel i(3) great show ?thesis by blast
qed

text \<open>
  Claim C2, as amended. Let the names that \<open>getParameters\<close> visits before
  \<open>referenceName\<close> have been bound without an error. If the references of
  \<open>referenceName\<close> are listed in non-decreasing order of their program counters and
  one of them is at or below the program counter of the hint, then \<open>getParameters\<close>
  goes on with a reference that is at or below the hint and whose program counter is
  the greatest among those: it parses the value of this reference, adjusts it with
  this reference's ap-tracking data and binds the name to the result. If the identifier
  has references and none is at or below the hint, \<open>getParameters\<close> fails with
  \<open>NoApplicableReference\<close>. An identifier without references fails with
  \<open>NoReferences\<close>, and a name without an identifier with \<open>MissingIdentifier\<close>.
\<close>

theorem getParameters_selects_greatest:
  assumes "getParameters R Identifiers hintApTracking before hintPC = Inr resolver"
  shows
    "(Identifiers referenceName = None \<longrightarrow>
        getParameters R Identifiers hintApTracking (before @ referenceName # after) hintPC
          = Inl MissingIdentifier) \<and>
     (Identifiers referenceName = Some [] \<longrightarrow>
        getParameters R Identifiers hintApTracking (before @ referenceName # after) hintPC
          = Inl NoReferences) \<and>
     (\<forall>references.
        Identifiers referenceName = Some references \<and> references \<noteq> [] \<and>
        (\<forall>r \<in> set references. \<not> Pc r \<le> hintPC) \<longrightarrow>
        getParameters R Identifiers hintApTracking (before @ referenceName # after) hintPC
          = Inl NoApplicableReference) \<and>
     (\<forall>references.
        Identifiers referenceName = Some references \<and> sorted (map Pc references) \<and>
        (\<exists>r \<in> set references. Pc r \<le> hintPC) \<longrightarrow>
        (\<exists>reference \<in> set references.
           Pc reference \<le> hintPC \<and>
           (\<forall>r \<in> set references. Pc r \<le> hintPC \<longrightarrow> Pc r \<le> Pc reference) \<and>
           getParameters R Identifiers hintApTracking (before @ referenceName # after) hintPC =
             bind_err (ParseIdentifier R (Value reference)) (\<lambda>param.
             bind_err (AddReference R resolver referenceName
                         (ApplyApTracking R param hintApTracking (ApTrackingData reference)))
               (getParameters_loop R Identifiers hintApTracking hintPC after))))"
proof -
  have step: "getParameters R Identifiers hintApTracking (before @ referenceName # after) hintPC =
     getParameters_loop R Identifiers hintApTracking hintPC (referenceName # after) resolver"
    using assms by (simp add: getParameters_def getParameters_loop_append)
  show ?thesis
  proof (intro conjI impI allI)
    show "getParameters R Identifiers hintApTracking (before @ referenceName # after) hintPC
          = Inl MissingIdentifier" if "Identifiers referenceName = None"
      using that by (simp add: step)
  next
    show "getParameters R Identifiers hintApTracking (before @ referenceName # after) hintPC
          = Inl NoReferences" if "Identifiers referenceName = Some []"
      using that by (simp add: step select_reference_def)
  next
    fix references
    assume "Identifiers referenceName = Some references \<and> references \<noteq> [] \<and>
        (\<forall>r \<in> set references. \<not> Pc r \<le> hintPC)"
    then show "getParameters R Identifiers hintApTracking (before @ referenceName # after) hintPC
          = Inl NoApplicableReference"
      by (simp add: step select_reference_none_applicable)
  next
    fix references
    assume a: "Identifiers referenceName = Some references \<and> sorted (map Pc references) \<and>
        (\<exists>r \<in> set references. Pc r \<le> hintPC)"
    with select_reference_sorted_greatest [of references hintPC]
    obtain reference where r: "reference \<in> set references"
      "select_reference references hintPC = Inr reference" "Pc reference \<le> hintPC"
      "\<forall>r \<in> set references. Pc r \<le> hintPC \<longrightarrow> Pc r \<le> Pc reference"
      by blast
    have "getParameters R Identifiers hintApTracking (before @ referenceName # after) hintPC =
             bind_err (ParseIdentifier R (Value reference)) (\<lambda>param.
             bind_err (AddReference R resolver referenceName
                         (ApplyApTracking R param hintApTracking (ApTrackingData reference)))
               (getParameters_loop R Identifiers hintApTracking hintPC after))"
      using a r(2) by (simp add: step)
    with r(1,3,4) show "\<exists>reference \<in> set references.
           Pc reference \<le> hintPC \<and>
           (\<forall>r \<in> set references. Pc r \<le> hintPC \<longrightarrow> Pc r \<le> Pc reference) \<and>
           getParameters R Identifiers hintApTracking (before @ referenceName # after) hintPC =
             bind_err (ParseIdentifier R (Value reference)) (\<lambda>param.
             bind_err (AddReference R resolver referenceName
                         (ApplyApTracking R param hintApTracking (ApTrackingData reference)))
               (getParameters_loop R Identifiers hintApTracking hintPC after))"
      by (intro bexI [of _ reference]) simp_all
  qed
qed

text \<open>
  The runs of the specification, with a resolver that lists its bindings and a parser
  that returns the value: with references at the program counters 0, 5 and 10 a hint
  at 7 binds the name to the reference at 5; a hint at 4 fails at the name visited
  second, whose references are at 5 and 10; a hint that refers to a name without an
  identifier fails with \<open>MissingIdentifier\<close>.
\<close>

theorem getParameters_selects_greatest_witness:
  "getParameters
     \<lparr>NewReferenceResolver = [], ParseIdentifier = (\<lambda>v. Inr v),
      ApplyApTracking = (\<lambda>p hintAp refAp. p),
      AddReference = (\<lambda>r name p. Inr ((name, p) # r))\<rparr>
     [''a'' \<mapsto> [\<lparr>ApTrackingData = (), Pc = 0, Value = ''a0''\<rparr>,
                \<lparr>ApTrackingData = (), Pc = 5, Value = ''a5''\<rparr>,
                \<lparr>ApTrackingData = (), Pc = 10, Value = ''a10''\<rparr>],
      ''b'' \<mapsto> [\<lparr>ApTrackingData = (), Pc = 5, Value = ''b5''\<rparr>,
                \<lparr>ApTrackingData = (), Pc = 10, Value = ''b10''\<rparr>]]
     () [''a''] 7
     = Inr [(''a'', ''a5'')]
   \<and>
   getParameters
     \<lparr>NewReferenceResolver = [], ParseIdentifier = (\<lambda>v. Inr v),
      ApplyApTracking = (\<lambda>p hintAp refAp. p),
      AddReference = (\<lambda>r name p. Inr ((name, p) # r))\<rparr>
     [''a'' \<mapsto> [\<lparr>ApTrackingData = (), Pc = 0, Value = ''a0''\<rparr>,
                \<lparr>ApTrackingData = (), Pc = 5, Value = ''a5''\<rparr>,
                \<lparr>ApTrackingData = (), Pc = 10, Value = ''a10''\<rparr>],
      ''b'' \<mapsto> [\<lparr>ApTrackingData = (), Pc = 5, Value = ''b5''\<rparr>,
                \<lparr>ApTrackingData = (), Pc = 10, Value = ''b10''\<rparr>]]
     () [''a'', ''b''] 4
     = Inl NoApplicableReference
   \<and>
   getParameters
     \<lparr>NewReferenceResolver = [], ParseIdentifier = (\<lambda>v. Inr v),
      ApplyApTracking = (\<lambda>p hintAp refAp. p),
      AddReference = (\<lambda>r name p. Inr ((name, p) # r))\<rparr>
     [''a'' \<mapsto> [\<lparr>ApTrackingData = (), Pc = 0, Value = ''a0''\<rparr>,
                \<lparr>ApTrackingData = (), Pc = 5, Value = ''a5''\<rparr>,
                \<lparr>ApTrackingData = (), Pc = 10, Value = ''a10''\<rparr>],
      ''b'' \<mapsto> [\<lparr>ApTrackingData = (), Pc = 5, Value = ''b5''\<rparr>,
                \<lparr>ApTrackingData = (), Pc = 10, Value = ''b10''\<rparr>]]
     () [''a'', ''c''] 7
     = Inl MissingIdentifier"
  using
    getParameters_selects_greatest [where
      R = "\<lparr>NewReferenceResolver = [], ParseIdentifier = (\<lambda>v. Inr v),
            ApplyApTracking = (\<lambda>p hintAp refAp. p),
            AddReference = (\<lambda>r name p. Inr ((name, p) # r))\<rparr>"
      and Identifiers =
        "[''a'' \<mapsto> [\<lparr>ApTrackingData = (), Pc = 0, Value = ''a0''\<rparr>,
                    \<lparr>ApTrackingData = (), Pc = 5, Value = ''a5''\<rparr>,
                    \<lparr>ApTrackingData = (), Pc = 10, Value = ''a10''\<rparr>],
          ''b'' \<mapsto> [\<lparr>ApTrackingData = (), Pc = 5, Value = ''b5''\<rparr>,
                    \<lparr>ApTrackingData = (), Pc = 10, Value = ''b10''\<rparr>]]"
      and hintApTracking = "()" and before = "[]" and hintPC = 7 and resolver = "[]"
      and referenceName = "''a''" and after = "[]"]
    getParameters_selects_greatest [where
      R = "\<lparr>NewReferenceResolver = [], ParseIdentifier = (\<lambda>v. Inr v),
            ApplyApTracking = (\<lambda>p hintAp refAp. p),
            AddReference = (\<lambda>r name p. Inr ((name, p) # r))\<rparr>"
      and Identifiers =
        "[''a'' \<mapsto> [\<lparr>ApTrackingData = (), Pc = 0, Value = ''a0''\<rparr>,
                    \<lparr>ApTrackingData = (), Pc = 5, Value = ''a5''\<rparr>,
                    \<lparr>ApTrackingData = (), Pc = 10, Value = ''a10''\<rparr>],
          ''b'' \<mapsto> [\<lparr>ApTrackingData = (), Pc = 5, Value = ''b5''\<rparr>,
                    \<lparr>ApTrackingData = (), Pc = 10, Value = ''b10''\<rparr>]]"
      and hintApTracking = "()" and before = "[''a'']" and hintPC = 4
      and resolver = "[(''a'', ''a0'')]"
      and referenceName = "''b''" and after = "[]"]
    getParameters_selects_greatest [where
      R = "\<lparr>NewReferenceResolver = [], ParseIdentifier = (\<lambda>v. Inr v),
            ApplyApTracking = (\<lambda>p hintAp refAp. p),
            AddReference = (\<lambda>r name p. Inr ((name, p) # r))\<rparr>"
      and Identifiers =
        "[''a'' \<mapsto> [\<lparr>ApTrackingData = (), Pc = 0, Value = ''a0''\<rparr>,
                    \<lparr>ApTrackingData = (), Pc = 5, Value = ''a5''\<rparr>,
                    \<lparr>ApTrackingData = (), Pc = 10, Value = ''a10''\<rparr>],
          ''b'' \<mapsto> [\<lparr>ApTrackingData = (), Pc = 5, Value = ''b5''\<rparr>,
                    \<lparr>ApTrackingData = (), Pc = 10, Value = ''b10''\<rparr>]]"
      and hintApTracking = "()" and before = "[''a'']" and hintPC = 7
      and resolver = "[(''a'', ''a5'')]"
      and referenceName = "''c''" and after = "[]"]
  by (simp add: getParameters_def select_reference_def)

text \<open>
  Claim C2 as stated fails on an identifier without references: none of its references
  is at or below the hint, and the error is \<open>NoReferences\<close>, from the check of the
  length that comes before the scan.
\<close>

theorem getParameters_no_references_counterexample:
  "getParameters
     \<lparr>NewReferenceResolver = [], ParseIdentifier = (\<lambda>v. Inr v),
      ApplyApTracking = (\<lambda>p hintAp refAp. p),
      AddReference = (\<lambda>r name p. Inr ((name, p) # r))\<rparr>
     [''a'' \<mapsto> ([] :: unit Reference list)] () [''a''] 7
     = Inl NoReferences"
  by (simp add: getParameters_def select_reference_def)

text \<open>
  On a list that is not in the order of the program counters the scan stops at the
  last reference that is at or below the hint, which need not be the greatest: from
  the references at 5 and 0, in this order, a hint at 7 gets the reference at 0. The
  comment of the loop says that it gets the biggest one; the amended claim says nothing
  about such lists.
\<close>

lemma select_reference_unsorted_input:
  "select_reference
     [\<lparr>ApTrackingData = (), Pc = 5, Value = ''a5''\<rparr>,
      \<lparr>ApTrackingData = (), Pc = 0, Value = ''a0''\<rparr>] 7
     = Inr \<lparr>ApTrackingData = (), Pc = 0, Value = ''a0''\<rparr>"
  by (simp add: select_reference_def)

section \<open>The dictionary manager\<close>



lemma bind_err_Inr_iff:
  "bind_err r f = Inr y \<longleftrightarrow> (\<exists>x. r = Inr x \<and> f x = Inr y)"
  by (cases r) simp_all

lemma felt_of_nat_eq_iff: "felt_of_nat a = felt_of_nat b \<longleftrightarrow> a mod PRIME = b mod PRIME"
  by (simp add: felt_val_inject [symmetric] felt_of_nat.rep_eq)

lemma Set_untracked:
  "lookup_dictionary dm (SegmentIndex dictAddr) = None \<Longrightarrow>
     DictionaryManager_Set dm dictAddr key v = Inl NoDictionaryAtAddress"
  by (auto simp: DictionaryManager_Set_def lookup_dictionary_def split: option.splits)

lemma Set_tracked:
  "lookup_dictionary dm (SegmentIndex dictAddr) = Some dict \<Longrightarrow>
     \<exists>dm'. DictionaryManager_Set dm dictAddr key v = Inr dm' \<and>
       lookup_dictionary dm' (SegmentIndex dictAddr)
         = Some (dict\<lparr>data := (data dict)(key \<mapsto> v), end' := dictAddr\<rparr>) \<and>
       (\<forall>i. i \<noteq> SegmentIndex dictAddr \<longrightarrow> lookup_dictionary dm' i = lookup_dictionary dm i)"
  by (auto simp: DictionaryManager_Set_def lookup_dictionary_def Dictionary_Set_def SetEnd_def
      split: option.splits)

lemma Set_Inr_tracked:
  "DictionaryManager_Set dm dictAddr key v = Inr dm' \<Longrightarrow>
     \<exists>dict. lookup_dictionary dm (SegmentIndex dictAddr) = Some dict"
  by (auto simp: DictionaryManager_Set_def lookup_dictionary_def split: option.splits)

lemma set_all_append:
  "set_all dm (xs @ ys) = bind_err (set_all dm xs) (\<lambda>dm'. set_all dm' ys)"
proof (induction xs arbitrary: dm)
  case Nil
  then show ?case by simp
next
  case (Cons c xs)
  obtain a k w where c: "c = (a, k, w)" by (cases c) auto
  show ?case
    by (cases "DictionaryManager_Set dm a k w") (simp_all add: c Cons.IH)
qed

lemma set_all_other_segments:
  "set_all dm calls = Inr dm' \<Longrightarrow> \<forall>c \<in> set calls. SegmentIndex (fst c) \<noteq> i \<Longrightarrow>
     lookup_dictionary dm' i = lookup_dictionary dm i"
proof (induction calls arbitrary: dm)
  case Nil
  then show ?case by simp
next
  case (Cons c calls)
  obtain a k w where c: "c = (a, k, w)" by (cases c) auto
  from Cons.prems(1) obtain dm1 where s: "DictionaryManager_Set dm a k w = Inr dm1"
    and r: "set_all dm1 calls = Inr dm'"
    by (auto simp: c bind_err_Inr_iff)
  from Set_Inr_tracked [OF s] obtain dict where "lookup_dictionary dm (SegmentIndex a) = Some dict" ..
  from Set_tracked [OF this, of k w] s Cons.prems(2)
  have "lookup_dictionary dm1 i = lookup_dictionary dm i" by (auto simp: c)
  moreover have "lookup_dictionary dm' i = lookup_dictionary dm1 i"
    using Cons.IH [OF r] Cons.prems(2) by simp
  ultimately show ?case by simp
qed

text \<open>
  Claim C5, as amended. \<open>Set\<close> on an address whose segment index is not tracked fails
  with \<open>NoDictionaryAtAddress\<close>. On a tracked one it succeeds and the dictionary's
  \<open>end\<close> is the address given. Over a sequence of \<open>Set\<close> calls the \<open>end\<close> of a
  dictionary is the address of the last call on its segment; where the offsets of the
  calls up to that one are in non-decreasing order, its offset is the greatest of them.
\<close>

theorem Set_end_is_last_address:
  "(lookup_dictionary dm (SegmentIndex dictAddr) = None \<longrightarrow>
      DictionaryManager_Set dm dictAddr key v = Inl NoDictionaryAtAddress) \<and>
   (lookup_dictionary dm (SegmentIndex dictAddr) \<noteq> None \<longrightarrow>
      (\<exists>dm' dict'. DictionaryManager_Set dm dictAddr key v = Inr dm' \<and>
         lookup_dictionary dm' (SegmentIndex dictAddr) = Some dict' \<and> end' dict' = dictAddr)) \<and>
   (\<forall>dm'. set_all dm (before @ [(dictAddr, key, v)] @ after) = Inr dm' \<and>
          (\<forall>c \<in> set after. SegmentIndex (fst c) \<noteq> SegmentIndex dictAddr) \<longrightarrow>
      (\<exists>dict'. lookup_dictionary dm' (SegmentIndex dictAddr) = Some dict' \<and>
         end' dict' = dictAddr \<and>
         (sorted (map (\<lambda>c. Offset (fst c)) (before @ [(dictAddr, key, v)])) \<longrightarrow>
            Offset (end' dict') = Max ((\<lambda>c. Offset (fst c)) ` set (before @ [(dictAddr, key, v)])))))"
proof (intro conjI impI allI)
  show "DictionaryManager_Set dm dictAddr key v = Inl NoDictionaryAtAddress"
    if "lookup_dictionary dm (SegmentIndex dictAddr) = None"
    using that by (rule Set_untracked)
next
  assume "lookup_dictionary dm (SegmentIndex dictAddr) \<noteq> None"
  then obtain dict where "lookup_dictionary dm (SegmentIndex dictAddr) = Some dict" by auto
  from Set_tracked [OF this, of key v]
  show "\<exists>dm' dict'. DictionaryManager_Set dm dictAddr key v = Inr dm' \<and>
         lookup_dictionary dm' (SegmentIndex dictAddr) = Some dict' \<and> end' dict' = dictAddr"
    by auto
next
  fix dm'
  assume a: "set_all dm (before @ [(dictAddr, key, v)] @ after) = Inr dm' \<and>
          (\<forall>c \<in> set after. SegmentIndex (fst c) \<noteq> SegmentIndex dictAddr)"
  then obtain dm1 dm2 where 1: "set_all dm before = Inr dm1"
    and 2: "DictionaryManager_Set dm1 dictAddr key v = Inr dm2"
    and 3: "set_all dm2 after = Inr dm'"
    by (auto simp: set_all_append bind_err_Inr_iff)
  from Set_Inr_tracked [OF 2] obtain dict
    where "lookup_dictionary dm1 (SegmentIndex dictAddr) = Some dict" ..
  from Set_tracked [OF this, of key v] 2
  have "lookup_dictionary dm2 (SegmentIndex dictAddr)
          = Some (dict\<lparr>data := (data dict)(key \<mapsto> v), end' := dictAddr\<rparr>)" by auto
  moreover from set_all_other_segments [OF 3] a
  have "lookup_dictionary dm' (SegmentIndex dictAddr) = lookup_dictionary dm2 (SegmentIndex dictAddr)"
    by simp
  ultimately have e: "\<exists>dict'. lookup_dictionary dm' (SegmentIndex dictAddr) = Some dict' \<and>
         end' dict' = dictAddr"
    by simp
  have "Max ((\<lambda>c. Offset (fst c)) ` set (before @ [(dictAddr, key, v)])) = Offset dictAddr"
    if "sorted (map (\<lambda>c. Offset (fst c)) (before @ [(dictAddr, key, v)]))"
    using that by (intro Max_eqI) (auto simp: sorted_append)
  with e show "\<exists>dict'. lookup_dictionary dm' (SegmentIndex dictAddr) = Some dict' \<and>
         end' dict' = dictAddr \<and>
         (sorted (map (\<lambda>c. Offset (fst c)) (before @ [(dictAddr, key, v)])) \<longrightarrow>
            Offset (end' dict') = Max ((\<lambda>c. Offset (fst c)) ` set (before @ [(dictAddr, key, v)])))"
    by auto
qed



text \<open>
  On a manager that tracks segment 1 only: \<open>Set\<close> on segment 2 fails, and after
  writes at the offsets 2 and then 5 of segment 1 the \<open>end\<close> is at offset 5.
\<close>

theorem Set_end_is_last_address_witness:
  "DictionaryManager_Set
     \<lparr>dictionaries = Some [1 \<mapsto> \<lparr>data = Map.empty, idx = 0, end' = \<lparr>SegmentIndex = 0, Offset = 0\<rparr>\<rparr>],
      useTemporarySegments = False\<rparr>
     \<lparr>SegmentIndex = 2, Offset = 0\<rparr> (felt_of_nat 7) (MemoryValueFromFieldElement (felt_of_nat 9))
     = Inl NoDictionaryAtAddress
   \<and>
   (case set_all
      \<lparr>dictionaries = Some [1 \<mapsto> \<lparr>data = Map.empty, idx = 0, end' = \<lparr>SegmentIndex = 0, Offset = 0\<rparr>\<rparr>],
       useTemporarySegments = False\<rparr>
      [(\<lparr>SegmentIndex = 1, Offset = 2\<rparr>, felt_of_nat 7, MemoryValueFromFieldElement (felt_of_nat 9)),
       (\<lparr>SegmentIndex = 1, Offset = 5\<rparr>, felt_of_nat 7, MemoryValueFromFieldElement (felt_of_nat 9))]
    of Inl e \<Rightarrow> None
     | Inr dm' \<Rightarrow> map_option end' (lookup_dictionary dm' 1))
     = Some \<lparr>SegmentIndex = 1, Offset = 5\<rparr>"
  using
    Set_end_is_last_address [of
      "\<lparr>dictionaries = Some [1 \<mapsto> \<lparr>data = Map.empty, idx = 0, end' = \<lparr>SegmentIndex = 0, Offset = 0\<rparr>\<rparr>],
        useTemporarySegments = False\<rparr>"
      "\<lparr>SegmentIndex = 2, Offset = 0\<rparr>" "felt_of_nat 7"
      "MemoryValueFromFieldElement (felt_of_nat 9)"]
    Set_end_is_last_address [of
      "\<lparr>dictionaries = Some [1 \<mapsto> \<lparr>data = Map.empty, idx = 0, end' = \<lparr>SegmentIndex = 0, Offset = 0\<rparr>\<rparr>],
        useTemporarySegments = False\<rparr>"
      "\<lparr>SegmentIndex = 1, Offset = 5\<rparr>" "felt_of_nat 7"
      "MemoryValueFromFieldElement (felt_of_nat 9)"
      "[(\<lparr>SegmentIndex = 1, Offset = 2\<rparr>, felt_of_nat 7, MemoryValueFromFieldElement (felt_of_nat 9))]"
      "[]"]
  by (simp add: DictionaryManager_Set_def lookup_dictionary_def Dictionary_Set_def SetEnd_def)

text \<open>
  Claim C5 as stated fails when a later call has a lower offset: after writes at the
  offsets 5 and then 2 of segment 1 the \<open>end\<close> is at offset 2, which is not the
  highest location written.
\<close>

theorem Set_end_highest_counterexample:
  "(case set_all
      \<lparr>dictionaries = Some [1 \<mapsto> \<lparr>data = Map.empty, idx = 0, end' = \<lparr>SegmentIndex = 0, Offset = 0\<rparr>\<rparr>],
       useTemporarySegments = False\<rparr>
      [(\<lparr>SegmentIndex = 1, Offset = 5\<rparr>, felt_of_nat 7, MemoryValueFromFieldElement (felt_of_nat 9)),
       (\<lparr>SegmentIndex = 1, Offset = 2\<rparr>, felt_of_nat 7, MemoryValueFromFieldElement (felt_of_nat 9))]
    of Inl e \<Rightarrow> None
     | Inr dm' \<Rightarrow> map_option end' (lookup_dictionary dm' 1))
     = Some \<lparr>SegmentIndex = 1, Offset = 2\<rparr>
   \<and> (2 :: u64) < 5"
  by (simp add: DictionaryManager_Set_def lookup_dictionary_def Dictionary_Set_def SetEnd_def)

lemma NewDictionary_Inr:
  assumes "NewDictionary M dm vm = Inr (A, dm1, vm1)"
  shows "\<exists>ds. dictionaries dm = Some ds \<and>
           lookup_dictionary dm1 (SegmentIndex A)
             = Some \<lparr>data = Map.empty, idx = of_nat (card (dom ds)),
                     end' = \<lparr>SegmentIndex = 0, Offset = 0\<rparr>\<rparr>"
  using assms
  by (auto simp: NewDictionary_def lookup_dictionary_def Let_def
      split: prod.splits option.splits if_splits)

lemma At_unset:
  "lookup_dictionary dm i = Some dict \<Longrightarrow> data dict k2 = None \<Longrightarrow> SegmentIndex a = i \<Longrightarrow>
     DictionaryManager_At dm a k2 = Inl NoValueForKey"
  by (simp add: DictionaryManager_At_def Dictionary_At_def)

lemma set_all_keeps_unset:
  "set_all dm calls = Inr dm' \<Longrightarrow> lookup_dictionary dm i = Some dict \<Longrightarrow> data dict k2 = None \<Longrightarrow>
   \<forall>c \<in> set calls. SegmentIndex (fst c) = i \<longrightarrow> fst (snd c) \<noteq> k2 \<Longrightarrow>
     \<exists>dict'. lookup_dictionary dm' i = Some dict' \<and> data dict' k2 = None"
proof (induction calls arbitrary: dm dict)
  case Nil
  then show ?case by simp
next
  case (Cons c calls)
  obtain a k w where c: "c = (a, k, w)" by (cases c) auto
  from Cons.prems(1) obtain dm1 where s: "DictionaryManager_Set dm a k w = Inr dm1"
    and r: "set_all dm1 calls = Inr dm'"
    by (auto simp: c bind_err_Inr_iff)
  from Set_Inr_tracked [OF s] obtain da where da: "lookup_dictionary dm (SegmentIndex a) = Some da" ..
  from Set_tracked [OF da, of k w] s
  have 1: "lookup_dictionary dm1 (SegmentIndex a)
             = Some (da\<lparr>data := (data da)(k \<mapsto> w), end' := a\<rparr>)"
    and 2: "\<forall>j. j \<noteq> SegmentIndex a \<longrightarrow> lookup_dictionary dm1 j = lookup_dictionary dm j"
    by auto
  have "\<exists>d1. lookup_dictionary dm1 i = Some d1 \<and> data d1 k2 = None"
  proof (cases "SegmentIndex a = i")
    case True
    with Cons.prems(4) have "k \<noteq> k2" by (simp add: c)
    with True 1 da Cons.prems(2,3) show ?thesis by auto
  next
    case False
    with 2 Cons.prems(2,3) show ?thesis by auto
  qed
  then obtain d1 where "lookup_dictionary dm1 i = Some d1" "data d1 k2 = None" by blast
  from Cons.IH [OF r this] Cons.prems(4) show ?case by simp
qed

text \<open>
  Claim C7. Let \<open>NewDictionary\<close> return the address \<open>A\<close>, and let \<open>a\<close> be an address
  of the same segment. Then \<open>Set\<close> at \<open>a\<close> of \<open>v\<close> under \<open>k\<close> succeeds, \<open>At\<close> at
  \<open>a\<close> and \<open>k\<close> returns \<open>v\<close>, and \<open>At\<close> at any other key fails with
  \<open>NoValueForKey\<close>. After any sequence of \<open>Set\<close> calls that all succeed, \<open>At\<close> fails
  with \<open>NoValueForKey\<close> at a key that none of the calls on this segment has set. \<open>At\<close>
  on an address whose segment index is not tracked fails with
  \<open>NoDictionaryAtAddress\<close>.
\<close>

theorem dictionary_round_trip:
  "(NewDictionary M dm vm = Inr (A, dm1, vm1) \<and> SegmentIndex a = SegmentIndex A \<longrightarrow>
      (\<exists>dm2. DictionaryManager_Set dm1 a k v = Inr dm2 \<and>
         DictionaryManager_At dm2 a k = Inr v \<and>
         (\<forall>k2. k2 \<noteq> k \<longrightarrow> DictionaryManager_At dm2 a k2 = Inl NoValueForKey))) \<and>
   (NewDictionary M dm vm = Inr (A, dm1, vm1) \<and> SegmentIndex a = SegmentIndex A \<and>
    set_all dm1 calls = Inr dm3 \<and>
    (\<forall>c \<in> set calls. SegmentIndex (fst c) = SegmentIndex A \<longrightarrow> fst (snd c) \<noteq> k2) \<longrightarrow>
      DictionaryManager_At dm3 a k2 = Inl NoValueForKey) \<and>
   (lookup_dictionary dm' (SegmentIndex b) = None \<longrightarrow>
      DictionaryManager_At dm' b k = Inl NoDictionaryAtAddress)"
proof (intro conjI impI)
  assume a: "NewDictionary M dm vm = Inr (A, dm1, vm1) \<and> SegmentIndex a = SegmentIndex A"
  from NewDictionary_Inr [of M dm vm A dm1 vm1] a obtain d
    where d: "lookup_dictionary dm1 (SegmentIndex a) = Some d" "data d = Map.empty" by auto
  from Set_tracked [OF d(1), of k v] obtain dm2
    where s: "DictionaryManager_Set dm1 a k v = Inr dm2"
      and l: "lookup_dictionary dm2 (SegmentIndex a) = Some (d\<lparr>data := (data d)(k \<mapsto> v), end' := a\<rparr>)"
    by blast
  have "DictionaryManager_At dm2 a k = Inr v"
    using l by (simp add: DictionaryManager_At_def Dictionary_At_def)
  moreover have "\<forall>k2. k2 \<noteq> k \<longrightarrow> DictionaryManager_At dm2 a k2 = Inl NoValueForKey"
    using l d(2) by (simp add: DictionaryManager_At_def Dictionary_At_def)
  ultimately show "\<exists>dm2. DictionaryManager_Set dm1 a k v = Inr dm2 \<and>
         DictionaryManager_At dm2 a k = Inr v \<and>
         (\<forall>k2. k2 \<noteq> k \<longrightarrow> DictionaryManager_At dm2 a k2 = Inl NoValueForKey)"
    using s by blast
next
  assume a: "NewDictionary M dm vm = Inr (A, dm1, vm1) \<and> SegmentIndex a = SegmentIndex A \<and>
    set_all dm1 calls = Inr dm3 \<and>
    (\<forall>c \<in> set calls. SegmentIndex (fst c) = SegmentIndex A \<longrightarrow> fst (snd c) \<noteq> k2)"
  from NewDictionary_Inr [of M dm vm A dm1 vm1] a obtain d
    where d: "lookup_dictionary dm1 (SegmentIndex A) = Some d" "data d k2 = None" by auto
  from set_all_keeps_unset [OF _ d] a obtain d3
    where "lookup_dictionary dm3 (SegmentIndex A) = Some d3" "data d3 k2 = None" by blast
  with a show "DictionaryManager_At dm3 a k2 = Inl NoValueForKey"
    by (intro At_unset) simp_all
next
  show "DictionaryManager_At dm' b k = Inl NoDictionaryAtAddress"
    if "lookup_dictionary dm' (SegmentIndex b) = None"
    using that by (simp add: DictionaryManager_At_def)
qed

text \<open>
  On the recording memory, with temporary segments: the new dictionary is at segment
  -1; after \<open>Set\<close> of 9 under the key 7, \<open>At\<close> returns 9 for the key 7 and fails for
  the key 8, and it fails on segment 3, which is not tracked.
\<close>

theorem dictionary_round_trip_witness:
  "(case NewDictionary trace_memory \<lparr>dictionaries = Some Map.empty, useTemporarySegments = True\<rparr>
           \<lparr>AddressAp = \<lparr>SegmentIndex = 1, Offset = 7\<rparr>, Memory = empty_memory\<rparr> of
      Inl e \<Rightarrow> False
    | Inr (A, dm1, vm1) \<Rightarrow>
        A = \<lparr>SegmentIndex = - 1, Offset = 0\<rparr> \<and>
        (case DictionaryManager_Set dm1 A (felt_of_nat 7) (MemoryValueFromFieldElement (felt_of_nat 9)) of
           Inl e \<Rightarrow> False
         | Inr dm2 \<Rightarrow>
             DictionaryManager_At dm2 A (felt_of_nat 7) = Inr (MemoryValueFromFieldElement (felt_of_nat 9)) \<and>
             DictionaryManager_At dm2 A (felt_of_nat 8) = Inl NoValueForKey \<and>
             DictionaryManager_At dm2 \<lparr>SegmentIndex = 3, Offset = 0\<rparr> (felt_of_nat 7)
               = Inl NoDictionaryAtAddress))"
  using dictionary_round_trip [of trace_memory
      "\<lparr>dictionaries = Some Map.empty, useTemporarySegments = True\<rparr>"
      "\<lparr>AddressAp = \<lparr>SegmentIndex = 1, Offset = 7\<rparr>, Memory = empty_memory\<rparr>"
      "\<lparr>SegmentIndex = - 1, Offset = 0\<rparr>"
      "\<lparr>dictionaries = Some [- 1 \<mapsto> \<lparr>data = Map.empty, idx = 0, end' = \<lparr>SegmentIndex = 0, Offset = 0\<rparr>\<rparr>],
        useTemporarySegments = True\<rparr>"
      "\<lparr>AddressAp = \<lparr>SegmentIndex = 1, Offset = 7\<rparr>,
        Memory = \<lparr>segments = 0, temporarySegments = 1, events = []\<rparr>\<rparr>"
      "\<lparr>SegmentIndex = - 1, Offset = 0\<rparr>"
      "felt_of_nat 7" "MemoryValueFromFieldElement (felt_of_nat 9)"]
  by (simp add: NewDictionary_def trace_memory_def empty_memory_def DictionaryManager_Set_def
      DictionaryManager_At_def Dictionary_At_def Dictionary_Set_def SetEnd_def
      lookup_dictionary_def felt_of_nat_eq_iff PRIME_def)


section \<open>Relocation of the dictionaries\<close>

lemma relocate_loop_closed_form:
  "set ks \<subseteq> dom ds \<Longrightarrow>
     relocate_loop M ds ks segmentAddr m =
       foldl (\<lambda>m' i. AddRelocationRule M m' (- (ks ! i))
                (segmentAddr\<lparr>Offset := Offset segmentAddr +
                   sum_list (map (\<lambda>k. case ds k of None \<Rightarrow> 0
                                 | Some dict \<Rightarrow> Offset (end' dict) + 1) (take i ks))\<rparr>))
         m [0..<length ks]"
proof (induction ks arbitrary: segmentAddr m)
  case Nil
  then show ?case by simp
next
  case (Cons key ks)
  then obtain dict where dict: "ds key = Some dict" and sub: "set ks \<subseteq> dom ds"
    by auto
  have upt: "[0..<length (key # ks)] = 0 # map Suc [0..<length ks]"
    by (simp add: upt_conv_Cons map_Suc_upt del: upt_Suc)
  show ?case
    unfolding upt
    by (simp add: dict Cons.IH [OF sub] foldl_map add.assoc del: upt_Suc)
qed

text \<open>
  Claim C6, as amended. \<open>RelocateAllDictionaries\<close> calls \<open>AllocateEmptySegment\<close>
  once, on the memory it was given, and then \<open>AddRelocationRule\<close> once for every
  tracked dictionary, in the order in which the run visits the map. The rule of the
  dictionary at segment index \<open>key\<close> is installed under \<open>-key\<close>, the negation of the
  segment index, and its target is the address in the new segment at the next free
  offset: the offset of the address that the allocation returned plus
  \<open>end.Offset + 1\<close> for every dictionary visited before, in 64-bit arithmetic.
\<close>

theorem RelocateAllDictionaries_rules:
  assumes "dictionaries dm = Some ds"
    and "map_iteration_order ds order"
    and "AllocateEmptySegment M (Memory vm) = (segmentAddr, m)"
  shows "RelocateAllDictionaries M dm order vm =
           vm\<lparr>Memory :=
             foldl (\<lambda>m' i. AddRelocationRule M m' (- (order ! i))
                      (segmentAddr\<lparr>Offset := Offset segmentAddr +
                         sum_list (map (\<lambda>k. case ds k of None \<Rightarrow> 0
                                       | Some dict \<Rightarrow> Offset (end' dict) + 1) (take i order))\<rparr>))
               m [0..<length order]\<rparr>"
proof -
  from assms(2) have sub: "set order \<subseteq> dom ds"
    by (simp add: map_iteration_order_def)
  from assms(1,3) show ?thesis
    by (simp add: RelocateAllDictionaries_def relocate_loop_closed_form [OF sub])
qed

text \<open>
  Two dictionaries at the temporary segments -1 and -2 with \<open>end\<close> offsets 2 and 0,
  visited in this order, on a memory with two segments: the new segment is segment 2,
  and the rules are at its offsets 0 and 3.
\<close>

theorem RelocateAllDictionaries_rules_witness:
  "RelocateAllDictionaries trace_memory
     \<lparr>dictionaries = Some
        [- 1 \<mapsto> \<lparr>data = Map.empty, idx = 0, end' = \<lparr>SegmentIndex = - 1, Offset = 2\<rparr>\<rparr>,
         - 2 \<mapsto> \<lparr>data = Map.empty, idx = 1, end' = \<lparr>SegmentIndex = - 2, Offset = 0\<rparr>\<rparr>],
      useTemporarySegments = True\<rparr>
     [- 1, - 2]
     \<lparr>AddressAp = \<lparr>SegmentIndex = 1, Offset = 7\<rparr>,
      Memory = \<lparr>segments = 2, temporarySegments = 2, events = []\<rparr>\<rparr>
   = \<lparr>AddressAp = \<lparr>SegmentIndex = 1, Offset = 7\<rparr>,
      Memory = \<lparr>segments = 3, temporarySegments = 2,
                events = [RelocationRule 1 \<lparr>SegmentIndex = 2, Offset = 0\<rparr>,
                          RelocationRule 2 \<lparr>SegmentIndex = 2, Offset = 3\<rparr>]\<rparr>\<rparr>"
  using RelocateAllDictionaries_rules [of
     "\<lparr>dictionaries = Some
        [- 1 \<mapsto> \<lparr>data = Map.empty, idx = 0, end' = \<lparr>SegmentIndex = - 1, Offset = 2\<rparr>\<rparr>,
         - 2 \<mapsto> \<lparr>data = Map.empty, idx = 1, end' = \<lparr>SegmentIndex = - 2, Offset = 0\<rparr>\<rparr>],
      useTemporarySegments = True\<rparr>"
     "[- 1 \<mapsto> \<lparr>data = Map.empty, idx = 0, end' = \<lparr>SegmentIndex = - 1, Offset = 2\<rparr>\<rparr>,
       - 2 \<mapsto> \<lparr>data = Map.empty, idx = 1, end' = \<lparr>SegmentIndex = - 2, Offset = 0\<rparr>\<rparr>]"
     "[- 1, - 2]" trace_memory
     "\<lparr>AddressAp = \<lparr>SegmentIndex = 1, Offset = 7\<rparr>,
      Memory = \<lparr>segments = 2, temporarySegments = 2, events = []\<rparr>\<rparr>"
     "\<lparr>SegmentIndex = 2, Offset = 0\<rparr>"
     "\<lparr>segments = 3, temporarySegments = 2, events = []\<rparr>"]
  by (simp add: map_iteration_order_def trace_memory_def insert_commute)

text \<open>
  Claim C6 as stated fails in the segment index of the rule: the rule of the dictionary
  at the temporary segment -1 is installed under 1, and the rule of a dictionary at the
  real segment 3 under -3, not under the segment index of the dictionary.
\<close>

theorem RelocateAllDictionaries_negated_key_counterexample:
  "events (Memory (RelocateAllDictionaries trace_memory
     \<lparr>dictionaries = Some
        [- 1 \<mapsto> \<lparr>data = Map.empty, idx = 0, end' = \<lparr>SegmentIndex = - 1, Offset = 2\<rparr>\<rparr>],
      useTemporarySegments = True\<rparr>
     [- 1]
     \<lparr>AddressAp = \<lparr>SegmentIndex = 1, Offset = 7\<rparr>,
      Memory = \<lparr>segments = 2, temporarySegments = 1, events = []\<rparr>\<rparr>))
   = [RelocationRule 1 \<lparr>SegmentIndex = 2, Offset = 0\<rparr>]
   \<and> (1 :: 64 word) \<noteq> - 1
   \<and>
   events (Memory (RelocateAllDictionaries trace_memory
     \<lparr>dictionaries = Some
        [3 \<mapsto> \<lparr>data = Map.empty, idx = 0, end' = \<lparr>SegmentIndex = 3, Offset = 2\<rparr>\<rparr>],
      useTemporarySegments = False\<rparr>
     [3]
     \<lparr>AddressAp = \<lparr>SegmentIndex = 1, Offset = 7\<rparr>,
      Memory = \<lparr>segments = 4, temporarySegments = 0, events = []\<rparr>\<rparr>))
   = [RelocationRule (- 3) \<lparr>SegmentIndex = 4, Offset = 0\<rparr>]
   \<and> (- 3 :: 64 word) \<noteq> 3"
  by (simp add: RelocateAllDictionaries_def trace_memory_def)

lemma two_element_order:
  assumes "map_iteration_order ds order" and "card (dom ds) = 2"
  shows "\<exists>k1 k2. order = [k1, k2] \<and> k1 \<in> dom ds \<and> k2 \<in> dom ds"
proof -
  from assms have "length order = 2"
    by (metis distinct_card map_iteration_order_def)
  then obtain k1 k2 where "order = [k1, k2]"
    by (auto simp: length_Suc_conv numeral_2_eq_2)
  with assms(1) show ?thesis
    by (auto simp: map_iteration_order_def)
qed

text \<open>
  Claim C1, as amended. On a manager with two dictionaries, for every order in which
  the run visits them, and with a new segment that starts at offset 0: the rule of the
  dictionary visited first is at offset 0, and the rule of the dictionary visited
  second is at the offset \<open>end.Offset + 1\<close> of the dictionary visited first. Which
  dictionary is first is the order of the map iteration, which the code does not fix.
\<close>

theorem RelocateAllDictionaries_second_rule:
  assumes "dictionaries dm = Some ds"
    and "map_iteration_order ds order"
    and "card (dom ds) = 2"
    and "AllocateEmptySegment M (Memory vm) = (segmentAddr, m)"
    and "Offset segmentAddr = 0"
  shows "\<exists>k1 k2 d1.
           order = [k1, k2] \<and> ds k1 = Some d1 \<and>
           RelocateAllDictionaries M dm order vm =
             vm\<lparr>Memory :=
               AddRelocationRule M (AddRelocationRule M m (- k1) segmentAddr)
                 (- k2) (segmentAddr\<lparr>Offset := Offset (end' d1) + 1\<rparr>)\<rparr>"
proof -
  from two_element_order [OF assms(2,3)] obtain k1 k2 d1 d2
    where o: "order = [k1, k2]" and d: "ds k1 = Some d1" "ds k2 = Some d2"
    by auto
  have "RelocateAllDictionaries M dm order vm =
             vm\<lparr>Memory :=
               AddRelocationRule M (AddRelocationRule M m (- k1) segmentAddr)
                 (- k2) (segmentAddr\<lparr>Offset := Offset (end' d1) + 1\<rparr>)\<rparr>"
    using assms(1,4,5) o d by (simp add: RelocateAllDictionaries_def)
  with o d(1) show ?thesis by blast
qed

text \<open>
  The manager of the specification, with \<open>end\<close> offsets 2 and 0, visited with the
  dictionary of offset 0 first: the second rule is at offset 1.
\<close>

theorem RelocateAllDictionaries_second_rule_witness:
  "RelocateAllDictionaries trace_memory
     \<lparr>dictionaries = Some
        [- 1 \<mapsto> \<lparr>data = Map.empty, idx = 0, end' = \<lparr>SegmentIndex = - 1, Offset = 2\<rparr>\<rparr>,
         - 2 \<mapsto> \<lparr>data = Map.empty, idx = 1, end' = \<lparr>SegmentIndex = - 2, Offset = 0\<rparr>\<rparr>],
      useTemporarySegments = True\<rparr>
     [- 2, - 1]
     \<lparr>AddressAp = \<lparr>SegmentIndex = 1, Offset = 7\<rparr>,
      Memory = \<lparr>segments = 2, temporarySegments = 2, events = []\<rparr>\<rparr>
   = \<lparr>AddressAp = \<lparr>SegmentIndex = 1, Offset = 7\<rparr>,
      Memory = \<lparr>segments = 3, temporarySegments = 2,
                events = [RelocationRule 2 \<lparr>SegmentIndex = 2, Offset = 0\<rparr>,
                          RelocationRule 1 \<lparr>SegmentIndex = 2, Offset = 1\<rparr>]\<rparr>\<rparr>"
  using RelocateAllDictionaries_second_rule [of
     "\<lparr>dictionaries = Some
        [- 1 \<mapsto> \<lparr>data = Map.empty, idx = 0, end' = \<lparr>SegmentIndex = - 1, Offset = 2\<rparr>\<rparr>,
         - 2 \<mapsto> \<lparr>data = Map.empty, idx = 1, end' = \<lparr>SegmentIndex = - 2, Offset = 0\<rparr>\<rparr>],
      useTemporarySegments = True\<rparr>"
     "[- 1 \<mapsto> \<lparr>data = Map.empty, idx = 0, end' = \<lparr>SegmentIndex = - 1, Offset = 2\<rparr>\<rparr>,
       - 2 \<mapsto> \<lparr>data = Map.empty, idx = 1, end' = \<lparr>SegmentIndex = - 2, Offset = 0\<rparr>\<rparr>]"
     "[- 2, - 1]"
     trace_memory
     "\<lparr>AddressAp = \<lparr>SegmentIndex = 1, Offset = 7\<rparr>,
      Memory = \<lparr>segments = 2, temporarySegments = 2, events = []\<rparr>\<rparr>"
     "\<lparr>SegmentIndex = 2, Offset = 0\<rparr>"
     "\<lparr>segments = 3, temporarySegments = 2, events = []\<rparr>"]
  by (auto simp: map_iteration_order_def trace_memory_def insert_commute)

text \<open>
  Claim C1 as stated fails: the two orders of the same map give different offsets. With
  \<open>end\<close> offsets 2 (segment -1) and 0 (segment -2), the rules are at the offsets 0 and 3
  when segment -1 is visited first, and at 0 and 1 when segment -2 is; the dictionary of
  segment -1 is relocated to offset 0 in one run and to offset 1 in the other.
\<close>

theorem RelocateAllDictionaries_order_counterexample:
  "map_iteration_order
     [- 1 \<mapsto> \<lparr>data = Map.empty, idx = 0, end' = \<lparr>SegmentIndex = - 1, Offset = 2\<rparr>\<rparr>,
      - 2 \<mapsto> \<lparr>data = Map.empty, idx = 1, end' = \<lparr>SegmentIndex = - 2, Offset = 0\<rparr>\<rparr>]
     [- 1 :: 64 word, - 2]
   \<and>
   map_iteration_order
     [- 1 \<mapsto> \<lparr>data = Map.empty, idx = 0, end' = \<lparr>SegmentIndex = - 1, Offset = 2\<rparr>\<rparr>,
      - 2 \<mapsto> \<lparr>data = Map.empty, idx = 1, end' = \<lparr>SegmentIndex = - 2, Offset = 0\<rparr>\<rparr>]
     [- 2 :: 64 word, - 1]
   \<and>
   events (Memory (RelocateAllDictionaries trace_memory
     \<lparr>dictionaries = Some
        [- 1 \<mapsto> \<lparr>data = Map.empty, idx = 0, end' = \<lparr>SegmentIndex = - 1, Offset = 2\<rparr>\<rparr>,
         - 2 \<mapsto> \<lparr>data = Map.empty, idx = 1, end' = \<lparr>SegmentIndex = - 2, Offset = 0\<rparr>\<rparr>],
      useTemporarySegments = True\<rparr>
     [- 1, - 2]
     \<lparr>AddressAp = \<lparr>SegmentIndex = 1, Offset = 7\<rparr>,
      Memory = \<lparr>segments = 2, temporarySegments = 2, events = []\<rparr>\<rparr>))
   = [RelocationRule 1 \<lparr>SegmentIndex = 2, Offset = 0\<rparr>,
      RelocationRule 2 \<lparr>SegmentIndex = 2, Offset = 3\<rparr>]
   \<and>
   events (Memory (RelocateAllDictionaries trace_memory
     \<lparr>dictionaries = Some
        [- 1 \<mapsto> \<lparr>data = Map.empty, idx = 0, end' = \<lparr>SegmentIndex = - 1, Offset = 2\<rparr>\<rparr>,
         - 2 \<mapsto> \<lparr>data = Map.empty, idx = 1, end' = \<lparr>SegmentIndex = - 2, Offset = 0\<rparr>\<rparr>],
      useTemporarySegments = True\<rparr>
     [- 2, - 1]
     \<lparr>AddressAp = \<lparr>SegmentIndex = 1, Offset = 7\<rparr>,
      Memory = \<lparr>segments = 2, temporarySegments = 2, events = []\<rparr>\<rparr>))
   = [RelocationRule 2 \<lparr>SegmentIndex = 2, Offset = 0\<rparr>,
      RelocationRule 1 \<lparr>SegmentIndex = 2, Offset = 1\<rparr>]"
  by (simp add: map_iteration_order_def RelocateAllDictionaries_def trace_memory_def insert_commute)


section \<open>The squashed dictionary manager\<close>




lemma LastKey_last:
  "keys_slice sdm \<noteq> [] \<Longrightarrow> LastKey sdm = Inr (last (keys_slice sdm))"
  by (simp add: LastKey_def last_conv_nth)

lemma Insert_initialized:
  "KeyToIndices sdm = Some m \<Longrightarrow>
     Insert sdm key index = Inr (sdm\<lparr>KeyToIndices := Some (m(key \<mapsto> indices_at sdm key @ [index]))\<rparr>)"
  by (simp add: Insert_def indices_at_def split: option.splits)

lemma Insert_nil: "KeyToIndices sdm = None \<Longrightarrow> Insert sdm key index = Inl NilMapPanic"
  by (simp add: Insert_def)

lemma keys_slice_KeyToIndices_update [simp]:
  "keys_slice (sdm\<lparr>KeyToIndices := x\<rparr>) = keys_slice sdm"
  by (simp add: keys_slice_def)

lemma indices_at_update [simp]:
  "indices_at (sdm\<lparr>KeyToIndices := Some (m(key \<mapsto> xs))\<rparr>) key = xs"
  by (simp add: indices_at_def)

text \<open>
  Claim C8. On an initialized manager, \<open>Insert\<close> of \<open>i1\<close> and then of \<open>i2\<close> under
  the key \<open>k\<close> both succeed and append \<open>i1\<close> and \<open>i2\<close>, in this order, to the index list
  of \<open>k\<close>. When \<open>k\<close> is the last of \<open>Keys\<close>, \<open>LastIndices\<close> then returns that list,
  which is \<open>[i1, i2]\<close> for a key that had no indices, and \<open>PopIndex\<close> returns \<open>i2\<close> and
  leaves the list that ends with \<open>i1\<close>.
\<close>

theorem Insert_appends_PopIndex_takes_last:
  assumes "KeyToIndices sdm = Some m"
  shows "\<exists>sdm1 sdm2.
           Insert sdm k i1 = Inr sdm1 \<and> Insert sdm1 k i2 = Inr sdm2 \<and>
           indices_at sdm2 k = indices_at sdm k @ [i1, i2] \<and>
           (keys_slice sdm \<noteq> [] \<and> last (keys_slice sdm) = k \<longrightarrow>
              LastIndices sdm2 = Inr (indices_at sdm k @ [i1, i2]) \<and>
              (m k = None \<longrightarrow> LastIndices sdm2 = Inr [i1, i2]) \<and>
              (\<exists>sdm3. PopIndex sdm2 = Inr (i2, sdm3) \<and>
                 LastIndices sdm3 = Inr (indices_at sdm k @ [i1]) \<and>
                 (m k = None \<longrightarrow> LastIndices sdm3 = Inr [i1])))"
proof -
  define sdm1 where "sdm1 = sdm\<lparr>KeyToIndices := Some (m(k \<mapsto> indices_at sdm k @ [i1]))\<rparr>"
  define sdm2 where "sdm2 = sdm1\<lparr>KeyToIndices :=
     Some ((m(k \<mapsto> indices_at sdm k @ [i1]))(k \<mapsto> indices_at sdm1 k @ [i2]))\<rparr>"
  have 1: "Insert sdm k i1 = Inr sdm1"
    using assms by (simp add: Insert_initialized sdm1_def)
  have m1: "KeyToIndices sdm1 = Some (m(k \<mapsto> indices_at sdm k @ [i1]))"
    by (simp add: sdm1_def)
  have 2: "Insert sdm1 k i2 = Inr sdm2"
    by (simp add: Insert_initialized [OF m1] sdm2_def)
  have i1: "indices_at sdm1 k = indices_at sdm k @ [i1]"
    by (simp add: sdm1_def)
  have i2: "indices_at sdm2 k = indices_at sdm k @ [i1, i2]"
    by (simp add: sdm2_def i1)
  have ks: "keys_slice sdm2 = keys_slice sdm"
    by (simp add: sdm2_def sdm1_def)
  have none: "indices_at sdm k = []" if "m k = None"
    using that assms by (simp add: indices_at_def)
  have tail: "LastIndices sdm2 = Inr (indices_at sdm k @ [i1, i2]) \<and>
              (m k = None \<longrightarrow> LastIndices sdm2 = Inr [i1, i2]) \<and>
              (\<exists>sdm3. PopIndex sdm2 = Inr (i2, sdm3) \<and>
                 LastIndices sdm3 = Inr (indices_at sdm k @ [i1]) \<and>
                 (m k = None \<longrightarrow> LastIndices sdm3 = Inr [i1]))"
    if t: "keys_slice sdm \<noteq> [] \<and> last (keys_slice sdm) = k"
  proof -
    from t ks have lk: "LastKey sdm2 = Inr k"
      by (simp add: LastKey_last)
    have li: "LastIndices sdm2 = Inr (indices_at sdm k @ [i1, i2])"
      by (simp add: LastIndices_def lk i2)
    define sdm3 where "sdm3 = sdm2\<lparr>KeyToIndices :=
       Some ((m(k \<mapsto> indices_at sdm k @ [i1]))(k \<mapsto> indices_at sdm1 k @ [i2], k \<mapsto> indices_at sdm k @ [i1]))\<rparr>"
    have m2: "KeyToIndices sdm2 = Some ((m(k \<mapsto> indices_at sdm k @ [i1]))(k \<mapsto> indices_at sdm1 k @ [i2]))"
      by (simp add: sdm2_def)
    have p: "PopIndex sdm2 = Inr (i2, sdm3)"
      by (simp add: PopIndex_def lk i2 m2 sdm3_def Let_def nth_append i1)
    have "keys_slice sdm3 = keys_slice sdm"
      by (simp add: sdm3_def ks)
    with t have "LastKey sdm3 = Inr k"
      by (simp add: LastKey_last)
    then have l3: "LastIndices sdm3 = Inr (indices_at sdm k @ [i1])"
      by (simp add: LastIndices_def sdm3_def)
    show ?thesis
    proof (intro conjI impI)
      show "LastIndices sdm2 = Inr (indices_at sdm k @ [i1, i2])" by (rule li)
      show "LastIndices sdm2 = Inr [i1, i2]" if "m k = None"
        using li none [OF that] by simp
      show "\<exists>sdm3. PopIndex sdm2 = Inr (i2, sdm3) \<and>
                 LastIndices sdm3 = Inr (indices_at sdm k @ [i1]) \<and>
                 (m k = None \<longrightarrow> LastIndices sdm3 = Inr [i1])"
        using p l3 none by (intro exI [of _ sdm3]) simp
    qed
  qed
  show ?thesis
    by (rule exI [of _ sdm1], rule exI [of _ sdm2], rule conjI [OF 1], rule conjI [OF 2],
        rule conjI [OF i2], rule impI, rule tail)
qed


text \<open>
  The run of the specification: key 7 with the indices 3 and 9.
\<close>

theorem Insert_appends_PopIndex_takes_last_witness:
  "(case Insert \<lparr>KeyToIndices = Some Map.empty, Keys = Some [felt_of_nat 7]\<rparr> (felt_of_nat 7) 3 of
      Inl e \<Rightarrow> False
    | Inr sdm1 \<Rightarrow>
        (case Insert sdm1 (felt_of_nat 7) 9 of
           Inl e \<Rightarrow> False
         | Inr sdm2 \<Rightarrow>
             LastIndices sdm2 = Inr [3, 9] \<and>
             (case PopIndex sdm2 of
                Inl e \<Rightarrow> False
              | Inr (index, sdm3) \<Rightarrow> index = 9 \<and> LastIndices sdm3 = Inr [3])))"
  using Insert_appends_PopIndex_takes_last [of
      "\<lparr>KeyToIndices = Some Map.empty, Keys = Some [felt_of_nat 7]\<rparr>" Map.empty
      "felt_of_nat 7" 3 9]
  by (simp add: Insert_def LastIndices_def LastKey_def PopIndex_def keys_slice_def
      indices_at_def)

lemma Initialize_fails_iff:
  "InitializeSquashedDictionaryManager ctx = Inl AlreadyInitialized \<longleftrightarrow>
     KeyToIndices (ctxSquashedDictionaryManager ctx) \<noteq> None \<or>
     Keys (ctxSquashedDictionaryManager ctx) \<noteq> None"
  by (simp add: InitializeSquashedDictionaryManager_def)

lemma apply_call_keeps_initialized:
  assumes "KeyToIndices (ctxSquashedDictionaryManager ctx) \<noteq> None \<or>
           Keys (ctxSquashedDictionaryManager ctx) \<noteq> None"
  shows "KeyToIndices (ctxSquashedDictionaryManager (apply_call ctx c)) \<noteq> None \<or>
         Keys (ctxSquashedDictionaryManager (apply_call ctx c)) \<noteq> None"
proof (cases c)
  case CallInitialize
  with assms show ?thesis
    by (simp add: InitializeSquashedDictionaryManager_def)
next
  case (CallInsert key index)
  with assms show ?thesis
    by (auto simp: Insert_def split: option.splits)
next
  case CallPopKey
  with assms show ?thesis
    by (cases "LastKey (ctxSquashedDictionaryManager ctx)") (simp_all add: PopKey_def)
next
  case CallPopIndex
  with assms show ?thesis
    by (cases "LastKey (ctxSquashedDictionaryManager ctx)")
      (auto simp: PopIndex_def Let_def split: option.splits)
qed

lemma sdm_calls_keeps_initialized:
  "KeyToIndices (ctxSquashedDictionaryManager ctx) \<noteq> None \<or>
   Keys (ctxSquashedDictionaryManager ctx) \<noteq> None \<Longrightarrow>
     KeyToIndices (ctxSquashedDictionaryManager (sdm_calls ctx calls)) \<noteq> None \<or>
     Keys (ctxSquashedDictionaryManager (sdm_calls ctx calls)) \<noteq> None"
  unfolding sdm_calls_def
proof (induction calls arbitrary: ctx)
  case Nil
  then show ?case by simp
next
  case (Cons c calls)
  from Cons.IH [OF apply_call_keeps_initialized [OF Cons.prems]] show ?case by simp
qed

text \<open>
  Claim C9. On a run context whose squashed dictionary manager is fresh (both fields
  nil) \<open>InitializeSquashedDictionaryManager\<close> succeeds. After a call that succeeded,
  every later call fails with \<open>AlreadyInitialized\<close>, whatever calls of the manager
  come in between.
\<close>

theorem Initialize_succeeds_once:
  "(KeyToIndices (ctxSquashedDictionaryManager ctx) = None \<and>
    Keys (ctxSquashedDictionaryManager ctx) = None \<longrightarrow>
      (\<exists>ctx1. InitializeSquashedDictionaryManager ctx = Inr ctx1)) \<and>
   (\<forall>ctx1 calls. InitializeSquashedDictionaryManager ctx = Inr ctx1 \<longrightarrow>
      InitializeSquashedDictionaryManager (sdm_calls ctx1 calls) = Inl AlreadyInitialized)"
proof (intro conjI impI allI)
  show "\<exists>ctx1. InitializeSquashedDictionaryManager ctx = Inr ctx1"
    if "KeyToIndices (ctxSquashedDictionaryManager ctx) = None \<and>
        Keys (ctxSquashedDictionaryManager ctx) = None"
    using that by (simp add: InitializeSquashedDictionaryManager_def)
next
  fix ctx1 calls
  assume "InitializeSquashedDictionaryManager ctx = Inr ctx1"
  then have "KeyToIndices (ctxSquashedDictionaryManager ctx1) \<noteq> None"
    by (auto simp: InitializeSquashedDictionaryManager_def split: if_splits)
  then have "KeyToIndices (ctxSquashedDictionaryManager (sdm_calls ctx1 calls)) \<noteq> None \<or>
     Keys (ctxSquashedDictionaryManager (sdm_calls ctx1 calls)) \<noteq> None"
    by (intro sdm_calls_keeps_initialized) simp
  then show "InitializeSquashedDictionaryManager (sdm_calls ctx1 calls) = Inl AlreadyInitialized"
    by (simp only: Initialize_fails_iff)
qed

text \<open>
  On the fresh context the first call succeeds; the second fails, at once and after an
  insertion, a pop and one more attempt.
\<close>

theorem Initialize_succeeds_once_witness:
  "InitializeSquashedDictionaryManager
     \<lparr>ctxDictionaryManager = \<lparr>dictionaries = None, useTemporarySegments = False\<rparr>,
      ctxSquashedDictionaryManager = \<lparr>KeyToIndices = None, Keys = None\<rparr>,
      ExcludedArc = 0\<rparr>
   = Inr \<lparr>ctxDictionaryManager = \<lparr>dictionaries = None, useTemporarySegments = False\<rparr>,
          ctxSquashedDictionaryManager = \<lparr>KeyToIndices = Some Map.empty, Keys = Some []\<rparr>,
          ExcludedArc = 0\<rparr>
   \<and>
   InitializeSquashedDictionaryManager
     \<lparr>ctxDictionaryManager = \<lparr>dictionaries = None, useTemporarySegments = False\<rparr>,
      ctxSquashedDictionaryManager = \<lparr>KeyToIndices = Some Map.empty, Keys = Some []\<rparr>,
      ExcludedArc = 0\<rparr>
   = Inl AlreadyInitialized
   \<and>
   InitializeSquashedDictionaryManager
     (sdm_calls
        \<lparr>ctxDictionaryManager = \<lparr>dictionaries = None, useTemporarySegments = False\<rparr>,
         ctxSquashedDictionaryManager = \<lparr>KeyToIndices = Some Map.empty, Keys = Some []\<rparr>,
         ExcludedArc = 0\<rparr>
        [CallInsert (felt_of_nat 7) 3, CallPopKey, CallInitialize])
   = Inl AlreadyInitialized"
  using
    Initialize_succeeds_once [of
      "\<lparr>ctxDictionaryManager = \<lparr>dictionaries = None, useTemporarySegments = False\<rparr>,
        ctxSquashedDictionaryManager = \<lparr>KeyToIndices = None, Keys = None\<rparr>,
        ExcludedArc = 0\<rparr>", THEN conjunct2, rule_format, of
      "\<lparr>ctxDictionaryManager = \<lparr>dictionaries = None, useTemporarySegments = False\<rparr>,
        ctxSquashedDictionaryManager = \<lparr>KeyToIndices = Some Map.empty, Keys = Some []\<rparr>,
        ExcludedArc = 0\<rparr>" "[]"]
    Initialize_succeeds_once [of
      "\<lparr>ctxDictionaryManager = \<lparr>dictionaries = None, useTemporarySegments = False\<rparr>,
        ctxSquashedDictionaryManager = \<lparr>KeyToIndices = None, Keys = None\<rparr>,
        ExcludedArc = 0\<rparr>", THEN conjunct2, rule_format, of
      "\<lparr>ctxDictionaryManager = \<lparr>dictionaries = None, useTemporarySegments = False\<rparr>,
        ctxSquashedDictionaryManager = \<lparr>KeyToIndices = Some Map.empty, Keys = Some []\<rparr>,
        ExcludedArc = 0\<rparr>" "[CallInsert (felt_of_nat 7) 3, CallPopKey, CallInitialize]"]
  by (simp add: InitializeSquashedDictionaryManager_def sdm_calls_def)

lemma Insert_Keys:
  "Insert sdm key index = Inr sdm' \<Longrightarrow> Keys sdm' = Keys sdm"
  by (auto simp: Insert_def split: option.splits)

lemma apply_call_keys_subset:
  "set (keys_slice (ctxSquashedDictionaryManager (apply_call ctx c)))
     \<subseteq> set (keys_slice (ctxSquashedDictionaryManager ctx))"
proof (cases c)
  case CallInitialize
  then show ?thesis
    by (simp add: InitializeSquashedDictionaryManager_def keys_slice_def)
next
  case (CallInsert key index)
  show ?thesis
  proof (cases "Insert (ctxSquashedDictionaryManager ctx) key index")
    case (Inl e)
    with CallInsert show ?thesis by simp
  next
    case (Inr sdm')
    from Insert_Keys [OF this] Inr CallInsert show ?thesis
      by (simp add: keys_slice_def)
  qed
next
  case CallPopKey
  then show ?thesis
    by (cases "LastKey (ctxSquashedDictionaryManager ctx)")
      (auto simp: PopKey_def keys_slice_def dest: in_set_takeD)
next
  case CallPopIndex
  then show ?thesis
    by (cases "LastKey (ctxSquashedDictionaryManager ctx)")
      (auto simp: PopIndex_def Let_def split: option.splits)
qed

lemma sdm_calls_keys_subset:
  "set (keys_slice (ctxSquashedDictionaryManager (sdm_calls ctx calls)))
     \<subseteq> set (keys_slice (ctxSquashedDictionaryManager ctx))"
  unfolding sdm_calls_def
proof (induction calls arbitrary: ctx)
  case Nil
  then show ?case by simp
next
  case (Cons c calls)
  have "set (keys_slice (ctxSquashedDictionaryManager (foldl apply_call (apply_call ctx c) calls)))
          \<subseteq> set (keys_slice (ctxSquashedDictionaryManager (apply_call ctx c)))"
    by (rule Cons.IH)
  also have "\<dots> \<subseteq> set (keys_slice (ctxSquashedDictionaryManager ctx))"
    by (rule apply_call_keys_subset)
  finally show ?case by simp
qed

lemma LastKey_in_keys: "LastKey sdm = Inr key \<Longrightarrow> key \<in> set (keys_slice sdm)"
  by (auto simp: LastKey_def split: if_splits)

lemma PopKey_in_keys: "PopKey sdm = Inr (key, sdm') \<Longrightarrow> key \<in> set (keys_slice sdm)"
  by (cases "LastKey sdm") (auto simp: PopKey_def dest: LastKey_in_keys)

text \<open>
  Claim C10. \<open>Insert\<close> returns without an error exactly on a manager whose map is not
  nil (on a nil map Go panics at the assignment), and then \<open>Keys\<close> is as it was. A key
  that is not in \<open>Keys\<close> is not returned by \<open>LastKey\<close> or \<open>PopKey\<close> after any
  sequence of calls of the manager, whatever is inserted under it.
\<close>

theorem Insert_leaves_Keys:
  "(\<forall>sdm'. Insert sdm key index = Inr sdm' \<longrightarrow> Keys sdm' = Keys sdm) \<and>
   (KeyToIndices sdm \<noteq> None \<longrightarrow> (\<exists>sdm'. Insert sdm key index = Inr sdm')) \<and>
   (KeyToIndices sdm = None \<longrightarrow> Insert sdm key index = Inl NilMapPanic) \<and>
   (key \<notin> set (keys_slice (ctxSquashedDictionaryManager ctx)) \<longrightarrow>
      (\<forall>calls.
         LastKey (ctxSquashedDictionaryManager (sdm_calls ctx calls)) \<noteq> Inr key \<and>
         (\<forall>sdm'. PopKey (ctxSquashedDictionaryManager (sdm_calls ctx calls)) \<noteq> Inr (key, sdm'))))"
proof (intro conjI impI allI)
  show "Keys sdm' = Keys sdm" if "Insert sdm key index = Inr sdm'" for sdm'
    using that by (rule Insert_Keys)
next
  show "\<exists>sdm'. Insert sdm key index = Inr sdm'" if "KeyToIndices sdm \<noteq> None"
    using that by (auto simp: Insert_initialized)
next
  show "Insert sdm key index = Inl NilMapPanic" if "KeyToIndices sdm = None"
    using that by (rule Insert_nil)
next
  fix calls sdm'
  assume n: "key \<notin> set (keys_slice (ctxSquashedDictionaryManager ctx))"
  with sdm_calls_keys_subset [of ctx calls]
  have "key \<notin> set (keys_slice (ctxSquashedDictionaryManager (sdm_calls ctx calls)))"
    by auto
  then show "LastKey (ctxSquashedDictionaryManager (sdm_calls ctx calls)) \<noteq> Inr key"
    and "PopKey (ctxSquashedDictionaryManager (sdm_calls ctx calls)) \<noteq> Inr (key, sdm')"
    by (auto dest: LastKey_in_keys PopKey_in_keys)
qed

text \<open>
  With \<open>Keys = [5]\<close>: inserting under the key 7 leaves \<open>Keys\<close> as it is, and after two
  insertions under 7 the last key is not 7. On the manager that was never initialized
  the insertion panics.
\<close>

theorem Insert_leaves_Keys_witness:
  "Insert \<lparr>KeyToIndices = Some Map.empty, Keys = Some [felt_of_nat 5]\<rparr> (felt_of_nat 7) 3
     = Inr \<lparr>KeyToIndices = Some [felt_of_nat 7 \<mapsto> [3]], Keys = Some [felt_of_nat 5]\<rparr>
   \<and>
   LastKey (ctxSquashedDictionaryManager (sdm_calls
      \<lparr>ctxDictionaryManager = \<lparr>dictionaries = None, useTemporarySegments = False\<rparr>,
       ctxSquashedDictionaryManager = \<lparr>KeyToIndices = Some Map.empty, Keys = Some [felt_of_nat 5]\<rparr>,
       ExcludedArc = 0\<rparr>
      [CallInsert (felt_of_nat 7) 3, CallInsert (felt_of_nat 7) 9]))
     \<noteq> Inr (felt_of_nat 7)
   \<and>
   Insert \<lparr>KeyToIndices = None, Keys = None\<rparr> (felt_of_nat 7) 3 = Inl NilMapPanic"
  using
    Insert_leaves_Keys [of "\<lparr>KeyToIndices = Some Map.empty, Keys = Some [felt_of_nat 5]\<rparr>"
      "felt_of_nat 7" 3
      "\<lparr>ctxDictionaryManager = \<lparr>dictionaries = None, useTemporarySegments = False\<rparr>,
        ctxSquashedDictionaryManager = \<lparr>KeyToIndices = Some Map.empty, Keys = Some [felt_of_nat 5]\<rparr>,
        ExcludedArc = 0\<rparr>"]
    Insert_leaves_Keys [of "\<lparr>KeyToIndices = None, Keys = None\<rparr>" "felt_of_nat 7" 3]
  by (simp add: Insert_def keys_slice_def felt_of_nat_eq_iff PRIME_def)

end
